theory Spec2Isabelle
  imports Main "HOL-Library.Sublist"
begin

section \<open>The svails command line tool: a shallow embedding\<close>

text \<open>
  The program is a TypeScript script run by Bun. It has two commands: \<^verbatim>\<open>init\<close>
  clones a template repository and rewrites a placeholder name, \<^verbatim>\<open>form\<close> renders a
  Svelte page and its server module from a list of \<^verbatim>\<open>field:type\<close> arguments.
  Two versions of the script are modelled: \<^verbatim>\<open>src/src/index.ts\<close> (plain names below)
  and the older \<^verbatim>\<open>src/unnamed/part_000\<close> (names ending in \<open>_part0\<close>).

  A JavaScript string is modelled as a HOL \<open>string\<close>, one \<open>char\<close> for one code unit.
  The value \<^verbatim>\<open>undefined\<close> of the type tag is \<open>None\<close>. Everything the script takes from
  its environment (the upper-casing of the JavaScript runtime, the file system, child
  processes, the UUID generator) is a field of the record \<open>runtime\<close>.
\<close>

subsection \<open>String operations of the JavaScript runtime\<close>

text \<open>\<^verbatim>\<open>s.charAt(0)\<close>: the first code unit as a string, the empty string when there is none.\<close>

definition charAt0 :: "string \<Rightarrow> string" where
  "charAt0 s = take 1 s"

text \<open>\<^verbatim>\<open>s.slice(1)\<close>: everything after the first code unit.\<close>

definition slice1 :: "string \<Rightarrow> string" where
  "slice1 s = drop 1 s"

text \<open>
  \<^verbatim>\<open>s.trimEnd()\<close> removes trailing white space. Among the code units below 256 the
  white space of ECMAScript is tab, line feed, vertical tab, form feed, carriage return,
  space and the no-break space.
\<close>

definition isWhiteSpace :: "char \<Rightarrow> bool" where
  "isWhiteSpace c \<longleftrightarrow>
     c \<in> {CHR 0x09, CHR 0x0A, CHR 0x0B, CHR 0x0C, CHR 0x0D, CHR 0x20, CHR 0xA0}"

definition trimEnd :: "string \<Rightarrow> string" where
  "trimEnd s = rev (dropWhile isWhiteSpace (rev s))"

text \<open>\<^verbatim>\<open>s.includes(t)\<close>: \<open>t\<close> occurs in \<open>s\<close> as a contiguous substring.\<close>

fun startsWith :: "string \<Rightarrow> string \<Rightarrow> bool" where
  "startsWith s [] = True"
| "startsWith [] (y # t) = False"
| "startsWith (x # s) (y # t) = (x = y \<and> startsWith s t)"

fun includes_str :: "string \<Rightarrow> string \<Rightarrow> bool" where
  "includes_str [] t = (t = [])"
| "includes_str (x # s) t = (startsWith (x # s) t \<or> includes_str s t)"

text \<open>\<^verbatim>\<open>xs.join(sep)\<close>.\<close>

fun join :: "string \<Rightarrow> string list \<Rightarrow> string" where
  "join sep [] = []"
| "join sep [x] = x"
| "join sep (x # y # ys) = x @ sep @ join sep (y # ys)"

text \<open>
  \<^verbatim>\<open>s.split(c)\<close> for a separator of one code unit: the pieces between the occurrences
  of \<open>c\<close>, in order. The result always has at least one piece.
\<close>

fun split :: "char \<Rightarrow> string \<Rightarrow> string list" where
  "split c [] = [[]]"
| "split c (x # s) =
     (if x = c then [] # split c s
      else (case split c s of [] \<Rightarrow> [[x]] | p # ps \<Rightarrow> (x # p) # ps))"

subsection \<open>The environment of the script\<close>

datatype error = ReaddirError | FileReadError | JsonError | TypeError | SpawnError | WriteError

text \<open>
  What \<^verbatim>\<open>JSON.parse(body)["name"]\<close> and \<^verbatim>\<open>projectName()\<close> evaluate to: a string,
  \<^verbatim>\<open>null\<close>, another value that counts as false in a condition (\<^verbatim>\<open>undefined\<close> for a
  missing key, \<^verbatim>\<open>0\<close>, \<^verbatim>\<open>false\<close>), or a value that is not a string and counts as true
  (a non-zero number, an object, an array, \<^verbatim>\<open>true\<close>).
\<close>

datatype js_value = JString string | JNull | JFalsyOther | JTruthyOther

text \<open>The truth value a condition gives a value: the empty string counts as false.\<close>

definition truthy :: "js_value \<Rightarrow> bool" where
  "truthy v = (case v of JString s \<Rightarrow> s \<noteq> [] | JNull \<Rightarrow> False
                 | JFalsyOther \<Rightarrow> False | JTruthyOther \<Rightarrow> True)"

record runtime =
  toUpperCase :: "string \<Rightarrow> string"
  readdir :: "string \<Rightarrow> string list option"
  fileText :: "string \<Rightarrow> string option"
  jsonName :: "string \<Rightarrow> js_value option"
  spawnSync :: "string list \<Rightarrow> bool option"
  randomUUID :: string
  bunWrite :: "string \<Rightarrow> string \<Rightarrow> bool"

text \<open>
  \<open>readdir rt folder\<close> is the listing of a directory, \<open>fileText rt path\<close> the text of a
  file, \<open>jsonName rt body\<close> the value of \<^verbatim>\<open>JSON.parse(body)["name"]\<close>,
  \<open>spawnSync rt cmd\<close> the \<^verbatim>\<open>success\<close> field of \<^verbatim>\<open>Bun.spawnSync({cmd})\<close>; each is \<open>None\<close>
  where the call throws. \<open>bunWrite rt path text\<close> says whether the write succeeds.
\<close>

subsection \<open>The renderer of \<^verbatim>\<open>src/src/index.ts\<close>\<close>

definition titleCase :: "runtime \<Rightarrow> string \<Rightarrow> string" where
  "titleCase rt input = toUpperCase rt (charAt0 input) @ slice1 input"

record Field =
  field :: string
  ftype :: "string option"

text \<open>A template literal renders \<^verbatim>\<open>${type}\<close> as the text \<^verbatim>\<open>undefined\<close> when the tag is undefined.\<close>

definition typeText :: "string option \<Rightarrow> string" where
  "typeText t = (case t of None \<Rightarrow> ''undefined'' | Some s \<Rightarrow> s)"

definition renderInput :: "Field \<Rightarrow> string \<Rightarrow> string" where
  \<open>renderInput f name =
     (if ftype f = Some ''textarea'' then
        ''<Textarea {...attrs} bind:value={$'' @ name @ ''Data.'' @ field f @ ''} rows={4} />''
      else if ftype f = Some ''files'' then
        ''<Input {...attrs} bind:value={$'' @ name @ ''Data.'' @ field f @ ''} type="file" multiple />''
      else
        ''<Input {...attrs} bind:value={$'' @ name @ ''Data.'' @ field f @ ''} type="''
          @ typeText (ftype f) @ ''" />'')\<close>

definition renderField :: "runtime \<Rightarrow> Field \<Rightarrow> string \<Rightarrow> string" where
  \<open>renderField rt f name =
     ''  <Form.Field form={'' @ name @ ''} name="'' @ field f @ ''">\<newline>'' @
     ''    <Form.Control let:attrs>\<newline>'' @
     ''      <Form.Label>'' @ titleCase rt (field f) @ ''</Form.Label>\<newline>'' @
     ''      '' @ renderInput f name @ ''\<newline>'' @
     ''    </Form.Control>\<newline>'' @
     ''    <Form.FieldErrors />\<newline>'' @
     ''  </Form.Field>''\<close>

definition renderHeader :: "string \<Rightarrow> string" where
  \<open>renderHeader renderedFields =
     (let output = [];
          output = (if includes_str renderedFields ''Input''
                    then output @ ''  import { Input } from "$ui/input";\<newline>'' else output);
          output = (if includes_str renderedFields ''Textarea''
                    then output @ ''  import { Textarea } from "$ui/textarea";\<newline>'' else output)
      in trimEnd output)\<close>

definition renderFormType :: "string \<Rightarrow> string" where
  \<open>renderFormType renderedFields =
     (if includes_str renderedFields ''type="file"'' then '' enctype="multipart/form-data"'' else [])\<close>

definition renderSchemaField :: "Field \<Rightarrow> string" where
  \<open>renderSchemaField f =
     (if ftype f = Some ''email'' then
        ''  '' @ field f @ '': z.string().email(),''
      else if ftype f = Some ''password'' then
        ''  '' @ field f @ '': z.string().min(8, { message: "Password must be minimum 8 characters" }),''
      else if ftype f = Some ''number'' then
        ''  '' @ field f @ '': z.number(),''
      else if ftype f = Some ''file'' then
        ''  '' @ field f @ '': z.instanceof(File),''
      else if ftype f = Some ''files'' then
        ''  '' @ field f @ '': z.array(z.instanceof(File)),''
      else if ftype f = Some ''date'' then
        ''  '' @ field f @ '': z.date(),''
      else
        ''  '' @ field f @ '': z.string(),'')\<close>

text \<open>
  \<^verbatim>\<open>projectName\<close>: the loop runs at most ten times; \<open>n\<close> counts the iterations that are
  left and \<open>folder\<close> is the loop variable. The path of the manifest is the folder and the
  file name put together with nothing in between, as in the source.
\<close>

fun projectName_loop :: "runtime \<Rightarrow> nat \<Rightarrow> string \<Rightarrow> error + js_value" where
  "projectName_loop rt 0 folder = Inr JNull"
| "projectName_loop rt (Suc n) folder =
     (case readdir rt folder of
        None \<Rightarrow> Inl ReaddirError
      | Some files \<Rightarrow>
          if ''package.json'' \<in> set files then
            (case fileText rt (folder @ ''package.json'') of
               None \<Rightarrow> Inl FileReadError
             | Some body \<Rightarrow>
                 (case jsonName rt body of None \<Rightarrow> Inl JsonError | Some v \<Rightarrow> Inr v))
          else projectName_loop rt n (if folder = ''.'' then ''../'' else folder @ ''../''))"

definition projectName :: "runtime \<Rightarrow> error + js_value" where
  "projectName rt = projectName_loop rt 10 ''.''"

text \<open>
  \<^verbatim>\<open>renderTitle\<close>: \<^verbatim>\<open>titleCase(project)\<close> calls \<^verbatim>\<open>charAt\<close> on the value, which throws a
  \<^verbatim>\<open>TypeError\<close> when the value is not a string.
\<close>

definition renderTitle :: "runtime \<Rightarrow> string \<Rightarrow> error + string" where
  "renderTitle rt name =
     (case projectName rt of
        Inl e \<Rightarrow> Inl e
      | Inr project \<Rightarrow>
          if truthy project then
            (case project of
               JString p \<Rightarrow> Inr (titleCase rt name @ '' - '' @ titleCase rt p)
             | _ \<Rightarrow> Inl TypeError)
          else Inr (titleCase rt name))"

text \<open>
  \<^verbatim>\<open>const [field, type] = arg.split(':')\<close>: the first two pieces, \<^verbatim>\<open>undefined\<close> for a piece
  that is not there. \<open>split\<close> never returns the empty list (lemma \<open>split_not_Nil\<close>), so the
  first case is never taken. The line is the same in both versions of the script.
\<close>

definition parseField :: "string \<Rightarrow> Field" where
  "parseField arg =
     (case split CHR '':'' arg of
        [] \<Rightarrow> \<lparr>field = [], ftype = None\<rparr>
      | [f] \<Rightarrow> \<lparr>field = f, ftype = None\<rparr>
      | f # t # _ \<Rightarrow> \<lparr>field = f, ftype = Some t\<rparr>)"

text \<open>The two documents of \<^verbatim>\<open>form\<close>, as functions of the local constants they are built from.\<close>

definition pageSvelte :: "runtime \<Rightarrow> string \<Rightarrow> string \<Rightarrow> string \<Rightarrow> string \<Rightarrow> string" where
  \<open>pageSvelte rt name renderedHeader title renderedFields =
     ''<script lang="ts">\<newline>'' @
     ''  import * as Form from "$ui/form";\<newline>'' @
     renderedHeader @ ''\<newline>'' @
     ''  import { superForm } from "sveltekit-superforms";\<newline>'' @
     ''  import Loader from "lucide-svelte/icons/loader";\<newline>'' @
     ''\<newline>'' @
     ''  // Props\<newline>'' @
     ''  const { data } = $props();\<newline>'' @
     ''  const '' @ name @ '' = superForm(data.'' @ name @ '');\<newline>'' @
     ''  const { form: '' @ name @ ''Data, delayed: '' @ name @ ''Delayed, submitting: '' @ name @ ''Submitting, enhance: '' @ name @ ''Enhance } = '' @ name @ '';\<newline>'' @
     ''</script>\<newline>'' @
     ''\<newline>'' @
     ''<svelte:head>\<newline>'' @
     ''  <title>'' @ title @ ''</title>\<newline>'' @
     ''</svelte:head>\<newline>'' @
     ''\<newline>'' @
     ''<h1 class="text-2xl font-bold mb-4">'' @ titleCase rt name @ ''</h1>\<newline>'' @
     ''\<newline>'' @
     ''<form class="grid gap-2" method="post" action="?/'' @ name @ ''"'' @ renderFormType renderedFields @ '' use:'' @ name @ ''Enhance>\<newline>'' @
     renderedFields @ ''\<newline>'' @
     ''\<newline>'' @
     ''  <Form.Button disabled={$'' @ name @ ''Submitting}>\<newline>'' @
     ''    {#if $'' @ name @ ''Delayed}\<newline>'' @
     ''      <Loader class="animate-spin" />\<newline>'' @
     ''    {:else}\<newline>'' @
     ''      Submit\<newline>'' @
     ''    {/if}\<newline>'' @
     ''  </Form.Button>\<newline>'' @
     ''</form>''\<close>

definition pageServer :: "string \<Rightarrow> string \<Rightarrow> string \<Rightarrow> Field list \<Rightarrow> string" where
  \<open>pageServer name schemaName renderedSchemaFields flds =
     ''import { z } from "zod";\<newline>'' @
     ''import { zod } from "sveltekit-superforms/adapters";\<newline>'' @
     ''import { fail, superValidate } from "sveltekit-superforms";\<newline>'' @
     ''import type { Actions, PageServerLoad } from "./$types";\<newline>'' @
     ''\<newline>'' @
     ''const '' @ schemaName @ '' = z.object({\<newline>'' @
     renderedSchemaFields @ ''\<newline>'' @
     ''});\<newline>'' @
     ''\<newline>'' @
     ''export const load: PageServerLoad = async () => {\<newline>'' @
     ''  // Initialize form\<newline>'' @
     ''  return {\<newline>'' @
     ''    '' @ name @ '': await superValidate(zod('' @ schemaName @ '')),\<newline>'' @
     ''  };\<newline>'' @
     ''};\<newline>'' @
     ''\<newline>'' @
     ''export const actions: Actions = {\<newline>'' @
     ''  '' @ name @ '': async ({ request }) => {\<newline>'' @
     ''    // Validate form\<newline>'' @
     ''    const '' @ name @ '' = await superValidate(request, zod('' @ schemaName @ ''));\<newline>'' @
     ''    if (!'' @ name @ ''.valid) return fail(400, { '' @ name @ '' });\<newline>'' @
     ''    const { '' @ join '', '' (map field flds) @ '' } = '' @ name @ ''.data;\<newline>'' @
     ''    console.log('' @ join '', '' (map field flds) @ '');\<newline>'' @
     ''  },\<newline>'' @
     ''};''\<close>

definition renderedFields_of :: "runtime \<Rightarrow> string \<Rightarrow> Field list \<Rightarrow> string" where
  "renderedFields_of rt name flds =
     join ''\<newline>\<newline>'' (map (\<lambda>f. renderField rt f name) flds)"

definition renderedSchemaFields_of :: "Field list \<Rightarrow> string" where
  "renderedSchemaFields_of flds = trimEnd (join ''\<newline>'' (map renderSchemaField flds))"

text \<open>
  The view document and the server document that \<^verbatim>\<open>form\<close> builds, given the title that
  \<^verbatim>\<open>renderTitle\<close> returned.
\<close>

definition form_pageSvelte :: "runtime \<Rightarrow> string \<Rightarrow> string \<Rightarrow> string list \<Rightarrow> string" where
  "form_pageSvelte rt title name args =
     (let flds = map parseField args;
          renderedFields = renderedFields_of rt name flds;
          renderedHeader = renderHeader renderedFields
      in pageSvelte rt name renderedHeader title renderedFields)"

definition form_pageServer :: "string \<Rightarrow> string list \<Rightarrow> string" where
  "form_pageServer name args =
     (let flds = map parseField args;
          schemaName = name @ ''Schema'';
          renderedSchemaFields = renderedSchemaFields_of flds
      in pageServer name schemaName renderedSchemaFields flds)"

subsection \<open>What a run of the script does\<close>

datatype event =
    ConsoleLog string
  | ConsoleError string
  | SpawnSync "string list"
  | BunWrite string string
  | Uncaught error

text \<open>
  \<^verbatim>\<open>form\<close>: the events of the call and whether it returned (\<open>True\<close>) or threw. An
  exception of \<^verbatim>\<open>renderTitle\<close> leaves before anything is written; both writes are started
  before either is awaited.
\<close>

definition form :: "runtime \<Rightarrow> string \<Rightarrow> string list \<Rightarrow> event list \<times> bool" where
  "form rt name args =
     (case renderTitle rt name of
        Inl e \<Rightarrow> ([Uncaught e], False)
      | Inr title \<Rightarrow>
          (let svelte = form_pageSvelte rt title name args;
               server = form_pageServer name args;
               writes = [BunWrite (name @ ''/+page.svelte'') svelte,
                         BunWrite (name @ ''/+page.server.ts'') server]
           in if bunWrite rt (name @ ''/+page.svelte'') svelte
                 \<and> bunWrite rt (name @ ''/+page.server.ts'') server
              then (writes @ [ConsoleLog (''Created '' @ name @ ''/+page.svelte''),
                              ConsoleLog (''Created '' @ name @ ''/+page.server.ts'')], True)
              else (writes @ [Uncaught WriteError], False)))"

text \<open>
  The top level of the script: the events of the run and the exit status of the process.
  \<^verbatim>\<open>process.exit(1)\<close> ends the run at once; an uncaught exception ends it with status 1;
  a run that reaches the end of the script has status 0.
\<close>

definition usage_init :: "event list" where
  "usage_init = [ConsoleLog ''Usage:'', ConsoleLog ''  svails init <template> <name>'']"

definition usage_form :: "event list" where
  "usage_form = [ConsoleLog ''Usage:'', ConsoleLog ''  svails form <name> <field>:<type>'']"

definition clone_cmd :: "string list \<Rightarrow> string list" where
  "clone_cmd args = [''git'', ''clone'', ''https://github.com/svails/'' @ args ! 1, args ! 2]"

definition mv_cmd :: "runtime \<Rightarrow> string list \<Rightarrow> string list" where
  "mv_cmd rt args = [''mv'', args ! 2 @ ''/.git'', ''/tmp/'' @ randomUUID rt]"

definition sed_upper_cmd :: "runtime \<Rightarrow> string list \<Rightarrow> string list" where
  "sed_upper_cmd rt args =
     [''find'', args ! 2, ''-type'', ''f'', ''-exec'', ''sed'', ''-i'',
      ''s/Svails/'' @ titleCase rt (args ! 2) @ ''/g'', ''{}'', ''+'']"

definition sed_lower_cmd :: "string list \<Rightarrow> string list" where
  "sed_lower_cmd args =
     [''find'', args ! 2, ''-type'', ''f'', ''!'', ''-name'', ''README.md'', ''-exec'', ''sed'', ''-i'',
      ''s/svails'' @ [CHR 0x5C] @ ''|svails-fullstack'' @ [CHR 0x5C] @ ''|svails-api/''
        @ args ! 2 @ ''/g'', ''{}'', ''+'']"

text \<open>
  The three commands after the clone, run one after the other; their results are not
  looked at, and only a call that throws stops the run.
\<close>

fun spawn_all :: "runtime \<Rightarrow> string list list \<Rightarrow> event list \<times> nat" where
  "spawn_all rt [] = ([], 0)"
| "spawn_all rt (cmd # cmds) =
     (case spawnSync rt cmd of
        None \<Rightarrow> ([SpawnSync cmd, Uncaught SpawnError], 1)
      | Some _ \<Rightarrow> (let (evs, st) = spawn_all rt cmds in (SpawnSync cmd # evs, st)))"

definition main :: "runtime \<Rightarrow> string list \<Rightarrow> event list \<times> nat" where
  "main rt args =
     (if length args = 0 then
        ([ConsoleLog ''Usage:'', ConsoleLog ''  svails init <field>'',
          ConsoleLog ''  svails form <name> <field>:<type>''], 1)
      else
        (let command = args ! 0 in
         if command = ''init'' then
           (if length args < 3 then (usage_init, 1)
            else
              (case spawnSync rt (clone_cmd args) of
                 None \<Rightarrow> ([SpawnSync (clone_cmd args), Uncaught SpawnError], 1)
               | Some success \<Rightarrow>
                   if \<not> success then
                     ([SpawnSync (clone_cmd args),
                       ConsoleError ''Failed to clone the repository.''], 1)
                   else
                     (let (evs, st) =
                            spawn_all rt [mv_cmd rt args, sed_upper_cmd rt args, sed_lower_cmd args]
                      in (SpawnSync (clone_cmd args) # evs, st))))
         else if command = ''form'' then
           (if length args < 3 then (usage_form, 1)
            else
              (let (evs, returned) = form rt (args ! 1) (drop 2 args)
               in (evs, if returned then 0 else 1)))
         else ([ConsoleLog (''Unknown command: '' @ args ! 0)], 1)))"

subsection \<open>The renderer of \<^verbatim>\<open>src/unnamed/part_000\<close>\<close>

text \<open>
  \<^verbatim>\<open>renderHeader\<close> and \<^verbatim>\<open>renderFormType\<close> of this version have the same text as in
  \<^verbatim>\<open>index.ts\<close>; the definitions above stand for both. This version has no
  \<^verbatim>\<open>titleCase\<close>, \<^verbatim>\<open>projectName\<close> or \<^verbatim>\<open>renderTitle\<close>.
\<close>

definition renderInput_part0 :: "Field \<Rightarrow> string \<Rightarrow> string" where
  \<open>renderInput_part0 f name =
     (if ftype f = Some ''textarea'' then
        ''<Textarea {...attrs} bind:value={$'' @ name @ ''.form.'' @ field f @ ''} rows={4} />''
      else if ftype f = Some ''files'' then
        ''<Input {...attrs} bind:value={$'' @ name @ ''.form.'' @ field f @ ''} type="file" multiple />''
      else
        ''<Input {...attrs} bind:value={$'' @ name @ ''.form.'' @ field f @ ''} type="''
          @ field f @ ''" />'')\<close>

definition renderField_part0 :: "runtime \<Rightarrow> Field \<Rightarrow> string \<Rightarrow> string" where
  \<open>renderField_part0 rt f name =
     ''  <Form.Field form={'' @ name @ ''} field="'' @ field f @ ''">\<newline>'' @
     ''    <Form.Control let:attrs>\<newline>'' @
     ''      <Form.Label>'' @ toUpperCase rt (charAt0 (field f)) @ slice1 (field f) @ ''</Form.Label>\<newline>'' @
     ''      '' @ renderInput_part0 f name @ ''\<newline>'' @
     ''    </Form.Control>\<newline>'' @
     ''    <Form.FieldErrors />\<newline>'' @
     ''  </Form.Field>''\<close>

definition renderSchemaField_part0 :: "Field \<Rightarrow> string" where
  \<open>renderSchemaField_part0 f =
     (if ftype f = Some ''email'' then
        ''  '' @ field f @ '': z.string().email(),''
      else if ftype f = Some ''password'' then
        ''  '' @ field f @ '': z.string().min(8, { message: "Password must be minimum 8 characters" }),''
      else if ftype f = Some ''number'' then
        ''  '' @ field f @ '': z.number(),''
      else if ftype f = Some ''file'' then
        ''  '' @ field f @ '': z.instanceof(File),''
      else if ftype f = Some ''files'' then
        ''  '' @ field f @ '': z.array(z.instanceof(File)),''
      else
        ''  '' @ field f @ '': z.string(),'')\<close>

definition pageSvelte_part0 :: "runtime \<Rightarrow> string \<Rightarrow> string \<Rightarrow> string \<Rightarrow> string" where
  \<open>pageSvelte_part0 rt name renderedHeader renderedFields =
     ''<script lang="ts">\<newline>'' @
     ''  import * as Form from "$ui/form";\<newline>'' @
     renderedHeader @ ''\<newline>'' @
     ''  import { superForm } from "sveltekit-superforms";\<newline>'' @
     ''  import Loader from "lucide-svelte/icons/loader";\<newline>'' @
     ''\<newline>'' @
     ''  // Props\<newline>'' @
     ''  const { data } = $props();\<newline>'' @
     ''  const '' @ name @ '' = superForm(data.'' @ name @ '');\<newline>'' @
     ''</script>\<newline>'' @
     ''\<newline>'' @
     ''<h1 class="text-xl font-bold mb-4">'' @ toUpperCase rt (charAt0 name) @ slice1 name @ ''</h1>\<newline>'' @
     ''\<newline>'' @
     ''<form class="grid gap-2" method="post"'' @ renderFormType renderedFields @ '' use:enhance={'' @ name @ ''.enhance}>\<newline>'' @
     renderedFields @ ''\<newline>'' @
     ''\<newline>'' @
     ''  <Form.Button disabled={$'' @ name @ ''.submitting}>\<newline>'' @
     ''    {#if $'' @ name @ ''.delayed}\<newline>'' @
     ''      <Loader class="animate-spin" />\<newline>'' @
     ''    {:else}\<newline>'' @
     ''      Submit\<newline>'' @
     ''    {/if}\<newline>'' @
     ''  </Form.Button>\<newline>'' @
     ''</form>''\<close>

definition pageServer_part0 :: "string \<Rightarrow> string \<Rightarrow> string \<Rightarrow> Field list \<Rightarrow> string" where
  \<open>pageServer_part0 name schemaName renderedSchemaFields flds =
     ''import { z } from "zod";\<newline>'' @
     ''import { zod } from "sveltekit-superforms/adapters";\<newline>'' @
     ''import { fail, superValidate } from "sveltekit-superforms";\<newline>'' @
     ''import { type Actions, type PageServerLoad } from "./$types";\<newline>'' @
     ''\<newline>'' @
     ''const '' @ schemaName @ '' = z.object({\<newline>'' @
     renderedSchemaFields @ ''\<newline>'' @
     ''});\<newline>'' @
     ''\<newline>'' @
     ''export const load: PageServerLoad = async () => {\<newline>'' @
     ''  // Initialize form\<newline>'' @
     ''  return {\<newline>'' @
     ''    '' @ name @ '': await superValidate(zod('' @ schemaName @ '')),\<newline>'' @
     ''  };\<newline>'' @
     ''};\<newline>'' @
     ''\<newline>'' @
     ''export const actions: Actions = {\<newline>'' @
     ''  default: async ({ request }) => {\<newline>'' @
     ''    // Validate form\<newline>'' @
     ''    const '' @ name @ '' = await superValidate(request, zod('' @ schemaName @ ''));\<newline>'' @
     ''    if (!'' @ name @ ''.valid) return fail(400, { form: '' @ name @ '' });\<newline>'' @
     ''    const { '' @ join '', '' (map field flds) @ '' } = '' @ name @ ''.data;\<newline>'' @
     ''\<newline>'' @
     ''    // Business logic\<newline>'' @
     ''  },\<newline>'' @
     ''};''\<close>

definition renderedFields_of_part0 :: "runtime \<Rightarrow> string \<Rightarrow> Field list \<Rightarrow> string" where
  "renderedFields_of_part0 rt name flds =
     join ''\<newline>\<newline>'' (map (\<lambda>f. renderField_part0 rt f name) flds)"

definition renderedSchemaFields_of_part0 :: "Field list \<Rightarrow> string" where
  "renderedSchemaFields_of_part0 flds =
     trimEnd (join ''\<newline>'' (map renderSchemaField_part0 flds))"

definition form_pageSvelte_part0 :: "runtime \<Rightarrow> string \<Rightarrow> string list \<Rightarrow> string" where
  "form_pageSvelte_part0 rt name args =
     (let flds = map parseField args;
          renderedFields = renderedFields_of_part0 rt name flds;
          renderedHeader = renderHeader renderedFields
      in pageSvelte_part0 rt name renderedHeader renderedFields)"

definition form_pageServer_part0 :: "string \<Rightarrow> string list \<Rightarrow> string" where
  "form_pageServer_part0 name args =
     (let flds = map parseField args;
          schemaName = name @ ''Schema'';
          renderedSchemaFields = renderedSchemaFields_of_part0 flds
      in pageServer_part0 name schemaName renderedSchemaFields flds)"

subsection \<open>Auxiliary notions and concrete inputs\<close>

text \<open>The folder that \<^verbatim>\<open>projectName\<close> looks at in iteration \<open>k\<close> of its loop.\<close>

definition folder_at :: "nat \<Rightarrow> string" where
  "folder_at k = (if k = 0 then ''.'' else concat (replicate k ''../''))"

text \<open>The files a run writes: the path and the text of every \<^verbatim>\<open>Bun.write\<close>, in order.\<close>

fun documents :: "event list \<Rightarrow> (string \<times> string) list" where
  "documents [] = []"
| "documents (BunWrite path text # evs) = (path, text) # documents evs"
| "documents (ev # evs) = documents evs"

text \<open>
  Runtimes for concrete runs. Upper-casing is the one of ASCII letters. In
  \<open>bare_runtime\<close> no folder has a manifest and every child process fails;
  \<open>failing_writes_runtime\<close> has the same environment, but its child processes succeed and
  its writes fail; in
  \<open>parent_manifest_runtime\<close> the parent of the working directory holds a manifest
  that declares the name \<^verbatim>\<open>shop\<close>; in \<open>cwd_manifest_runtime\<close> the working directory itself
  holds that manifest.
\<close>

definition asciiUpper :: "char \<Rightarrow> char" where
  "asciiUpper c =
     (case map_of (zip ''abcdefghijklmnopqrstuvwxyz'' ''ABCDEFGHIJKLMNOPQRSTUVWXYZ'') c of
        None \<Rightarrow> c | Some u \<Rightarrow> u)"

definition bare_runtime :: runtime where
  "bare_runtime =
     \<lparr>toUpperCase = map asciiUpper,
      readdir = (\<lambda>folder. Some [''src'', ''README.md'']),
      fileText = (\<lambda>path. None),
      jsonName = (\<lambda>body. None),
      spawnSync = (\<lambda>cmd. Some False),
      randomUUID = ''0b5e7a52-6d0c-4c1e-9a55-1f2f0c3e8d11'',
      bunWrite = (\<lambda>path text. True)\<rparr>"


definition manifest_body :: string where
  \<open>manifest_body = ''{ "name": "shop" }''\<close>

definition parent_manifest_runtime :: runtime where
  "parent_manifest_runtime =
     bare_runtime
       \<lparr>readdir := (\<lambda>folder. if folder = ''../'' then Some [''package.json'', ''src''] else Some [''routes'']),
        fileText := (\<lambda>path. if path = ''../package.json'' then Some manifest_body else None),
        jsonName := (\<lambda>body. if body = manifest_body then Some (JString ''shop'') else None)\<rparr>"

definition cwd_manifest_runtime :: runtime where
  "cwd_manifest_runtime =
     bare_runtime
       \<lparr>readdir := (\<lambda>folder. if folder = ''.'' then Some [''package.json'', ''src''] else Some []),
        fileText := (\<lambda>path. if path = ''package.json'' \<or> path = ''./package.json''
                            then Some manifest_body else None),
        jsonName := (\<lambda>body. if body = manifest_body then Some (JString ''shop'') else None)\<rparr>"

text \<open>
  How often a text occurs in a string: the number of positions at which it starts.
\<close>

fun occurrences :: "string \<Rightarrow> string \<Rightarrow> nat" where
  "occurrences m [] = (if m = [] then 1 else 0)"
| "occurrences m (x # s) = (if prefix m (x # s) then 1 else 0) + occurrences m s"

text \<open>
  The templates of the two documents, cut at the place where the rendered field blocks
  (in the view document) or the rendered schema rules (in the server document) are put
  in: the text up to that place and the text after it.
\<close>

definition pageSvelte_head :: "runtime \<Rightarrow> string \<Rightarrow> string \<Rightarrow> string \<Rightarrow> string \<Rightarrow> string" where
  \<open>pageSvelte_head rt name renderedHeader title formType =
     ''<script lang="ts">\<newline>'' @
     ''  import * as Form from "$ui/form";\<newline>'' @
     renderedHeader @ ''\<newline>'' @
     ''  import { superForm } from "sveltekit-superforms";\<newline>'' @
     ''  import Loader from "lucide-svelte/icons/loader";\<newline>'' @
     ''\<newline>'' @
     ''  // Props\<newline>'' @
     ''  const { data } = $props();\<newline>'' @
     ''  const '' @ name @ '' = superForm(data.'' @ name @ '');\<newline>'' @
     ''  const { form: '' @ name @ ''Data, delayed: '' @ name @ ''Delayed, submitting: '' @ name @ ''Submitting, enhance: '' @ name @ ''Enhance } = '' @ name @ '';\<newline>'' @
     ''</script>\<newline>'' @
     ''\<newline>'' @
     ''<svelte:head>\<newline>'' @
     ''  <title>'' @ title @ ''</title>\<newline>'' @
     ''</svelte:head>\<newline>'' @
     ''\<newline>'' @
     ''<h1 class="text-2xl font-bold mb-4">'' @ titleCase rt name @ ''</h1>\<newline>'' @
     ''\<newline>'' @
     ''<form class="grid gap-2" method="post" action="?/'' @ name @ ''"'' @ formType @ '' use:'' @ name @ ''Enhance>\<newline>''\<close>

definition pageSvelte_tail :: "string \<Rightarrow> string" where
  \<open>pageSvelte_tail name =
     ''\<newline>'' @
     ''\<newline>'' @
     ''  <Form.Button disabled={$'' @ name @ ''Submitting}>\<newline>'' @
     ''    {#if $'' @ name @ ''Delayed}\<newline>'' @
     ''      <Loader class="animate-spin" />\<newline>'' @
     ''    {:else}\<newline>'' @
     ''      Submit\<newline>'' @
     ''    {/if}\<newline>'' @
     ''  </Form.Button>\<newline>'' @
     ''</form>''\<close>

definition pageServer_head :: "string \<Rightarrow> string" where
  \<open>pageServer_head schemaName =
     ''import { z } from "zod";\<newline>'' @
     ''import { zod } from "sveltekit-superforms/adapters";\<newline>'' @
     ''import { fail, superValidate } from "sveltekit-superforms";\<newline>'' @
     ''import type { Actions, PageServerLoad } from "./$types";\<newline>'' @
     ''\<newline>'' @
     ''const '' @ schemaName @ '' = z.object({\<newline>''\<close>

definition pageServer_tail :: "string \<Rightarrow> string \<Rightarrow> Field list \<Rightarrow> string" where
  \<open>pageServer_tail name schemaName flds =
     ''\<newline>'' @
     ''});\<newline>'' @
     ''\<newline>'' @
     ''export const load: PageServerLoad = async () => {\<newline>'' @
     ''  // Initialize form\<newline>'' @
     ''  return {\<newline>'' @
     ''    '' @ name @ '': await superValidate(zod('' @ schemaName @ '')),\<newline>'' @
     ''  };\<newline>'' @
     ''};\<newline>'' @
     ''\<newline>'' @
     ''export const actions: Actions = {\<newline>'' @
     ''  '' @ name @ '': async ({ request }) => {\<newline>'' @
     ''    // Validate form\<newline>'' @
     ''    const '' @ name @ '' = await superValidate(request, zod('' @ schemaName @ ''));\<newline>'' @
     ''    if (!'' @ name @ ''.valid) return fail(400, { '' @ name @ '' });\<newline>'' @
     ''    const { '' @ join '', '' (map field flds) @ '' } = '' @ name @ ''.data;\<newline>'' @
     ''    console.log('' @ join '', '' (map field flds) @ '');\<newline>'' @
     ''  },\<newline>'' @
     ''};''\<close>

definition pageSvelte_head_part0 :: "runtime \<Rightarrow> string \<Rightarrow> string \<Rightarrow> string \<Rightarrow> string" where
  \<open>pageSvelte_head_part0 rt name renderedHeader formType =
     ''<script lang="ts">\<newline>'' @
     ''  import * as Form from "$ui/form";\<newline>'' @
     renderedHeader @ ''\<newline>'' @
     ''  import { superForm } from "sveltekit-superforms";\<newline>'' @
     ''  import Loader from "lucide-svelte/icons/loader";\<newline>'' @
     ''\<newline>'' @
     ''  // Props\<newline>'' @
     ''  const { data } = $props();\<newline>'' @
     ''  const '' @ name @ '' = superForm(data.'' @ name @ '');\<newline>'' @
     ''</script>\<newline>'' @
     ''\<newline>'' @
     ''<h1 class="text-xl font-bold mb-4">'' @ toUpperCase rt (charAt0 name) @ slice1 name @ ''</h1>\<newline>'' @
     ''\<newline>'' @
     ''<form class="grid gap-2" method="post"'' @ formType @ '' use:enhance={'' @ name @ ''.enhance}>\<newline>''\<close>

definition pageSvelte_tail_part0 :: "string \<Rightarrow> string" where
  \<open>pageSvelte_tail_part0 name =
     ''\<newline>'' @
     ''\<newline>'' @
     ''  <Form.Button disabled={$'' @ name @ ''.submitting}>\<newline>'' @
     ''    {#if $'' @ name @ ''.delayed}\<newline>'' @
     ''      <Loader class="animate-spin" />\<newline>'' @
     ''    {:else}\<newline>'' @
     ''      Submit\<newline>'' @
     ''    {/if}\<newline>'' @
     ''  </Form.Button>\<newline>'' @
     ''</form>''\<close>

definition pageServer_head_part0 :: "string \<Rightarrow> string" where
  \<open>pageServer_head_part0 schemaName =
     ''import { z } from "zod";\<newline>'' @
     ''import { zod } from "sveltekit-superforms/adapters";\<newline>'' @
     ''import { fail, superValidate } from "sveltekit-superforms";\<newline>'' @
     ''import { type Actions, type PageServerLoad } from "./$types";\<newline>'' @
     ''\<newline>'' @
     ''const '' @ schemaName @ '' = z.object({\<newline>''\<close>

definition pageServer_tail_part0 :: "string \<Rightarrow> string \<Rightarrow> Field list \<Rightarrow> string" where
  \<open>pageServer_tail_part0 name schemaName flds =
     ''\<newline>'' @
     ''});\<newline>'' @
     ''\<newline>'' @
     ''export const load: PageServerLoad = async () => {\<newline>'' @
     ''  // Initialize form\<newline>'' @
     ''  return {\<newline>'' @
     ''    '' @ name @ '': await superValidate(zod('' @ schemaName @ '')),\<newline>'' @
     ''  };\<newline>'' @
     ''};\<newline>'' @
     ''\<newline>'' @
     ''export const actions: Actions = {\<newline>'' @
     ''  default: async ({ request }) => {\<newline>'' @
     ''    // Validate form\<newline>'' @
     ''    const '' @ name @ '' = await superValidate(request, zod('' @ schemaName @ ''));\<newline>'' @
     ''    if (!'' @ name @ ''.valid) return fail(400, { form: '' @ name @ '' });\<newline>'' @
     ''    const { '' @ join '', '' (map field flds) @ '' } = '' @ name @ ''.data;\<newline>'' @
     ''\<newline>'' @
     ''    // Business logic\<newline>'' @
     ''  },\<newline>'' @
     ''};''\<close>

section \<open>Properties\<close>

subsection \<open>The string operations\<close>

lemma startsWith_prefix: "startsWith s t \<longleftrightarrow> prefix t s"
  by (induction s t rule: startsWith.induct) auto

lemma includes_str_sublist: "includes_str s t \<longleftrightarrow> sublist t s"
  by (induction s) (simp_all add: startsWith_prefix sublist_Cons_right)

lemma split_not_Nil: "split c s \<noteq> []"
  by (induction s) (simp_all split: list.splits)

lemma split_hd: "hd (split c s) = takeWhile (\<lambda>x. x \<noteq> c) s"
  by (induction s) (auto simp: split_not_Nil split: list.splits)

lemma split_no_sep: "c \<notin> set s \<Longrightarrow> split c s = [s]"
  by (induction s) (auto split: list.splits)

lemma split_append_sep: "c \<notin> set p \<Longrightarrow> split c (p @ c # r) = p # split c r"
  by (induction p) (auto split: list.splits)

lemma takeWhile_upto_sep: "c \<notin> set p \<Longrightarrow> takeWhile (\<lambda>x. x \<noteq> c) (p @ c # r) = p"
  by (induction p) auto

lemma dropWhile_upto_sep: "c \<notin> set p \<Longrightarrow> dropWhile (\<lambda>x. x \<noteq> c) (p @ c # r) = c # r"
  by (induction p) auto

lemma split_decomp: "split c s = takeWhile (\<lambda>x. x \<noteq> c) s #
   (if c \<in> set s then split c (drop 1 (dropWhile (\<lambda>x. x \<noteq> c) s)) else [])"
proof (cases "c \<in> set s")
  case True
  then obtain p r where s: "s = p @ c # r" and p: "c \<notin> set p"
    by (meson split_list_first)
  have tw: "takeWhile (\<lambda>x. x \<noteq> c) s = p" using s p by (simp add: takeWhile_upto_sep)
  have dw: "dropWhile (\<lambda>x. x \<noteq> c) s = c # r" using s p by (simp add: dropWhile_upto_sep)
  show ?thesis using True tw dw split_append_sep[OF p, of r] s by simp
next
  case False
  then have tw: "takeWhile (\<lambda>x. x \<noteq> c) s = s" by (induction s) auto
  show ?thesis by (simp only: tw split_no_sep[OF False] False if_False)
qed

lemma trimEnd_snoc: "\<not> isWhiteSpace x \<Longrightarrow> trimEnd (s @ [x]) = s @ [x]"
  by (simp add: trimEnd_def)

lemma trimEnd_Nil: "trimEnd [] = []"
  by (simp add: trimEnd_def)

subsection \<open>Parsing a field argument\<close>

lemma parseField_eq:
  "parseField arg =
     \<lparr>field = takeWhile (\<lambda>x. x \<noteq> CHR '':'') arg,
      ftype = (if CHR '':'' \<in> set arg
               then Some (takeWhile (\<lambda>x. x \<noteq> CHR '':'') (drop 1 (dropWhile (\<lambda>x. x \<noteq> CHR '':'') arg)))
               else None)\<rparr>"
proof (cases "CHR '':'' \<in> set arg")
  case True
  let ?r = "drop 1 (dropWhile (\<lambda>x. x \<noteq> CHR '':'') arg)"
  have 1: "split CHR '':'' arg = takeWhile (\<lambda>x. x \<noteq> CHR '':'') arg # split CHR '':'' ?r"
    using split_decomp[of "CHR '':''" arg] True by simp
  have 2: "split CHR '':'' ?r = takeWhile (\<lambda>x. x \<noteq> CHR '':'') ?r #
       (if CHR '':'' \<in> set ?r then split CHR '':'' (drop 1 (dropWhile (\<lambda>x. x \<noteq> CHR '':'') ?r)) else [])"
    by (rule split_decomp)
  show ?thesis
    unfolding parseField_def 1 by (subst 2) (simp add: True)
next
  case False
  then have tw: "takeWhile (\<lambda>x. x \<noteq> CHR '':'') arg = arg" by (induction arg) auto
  show ?thesis
    unfolding parseField_def split_no_sep[OF False] tw using False by simp
qed

lemma parseField_no_colon: "CHR '':'' \<notin> set arg \<Longrightarrow> parseField arg = \<lparr>field = arg, ftype = None\<rparr>"
  by (simp add: parseField_def split_no_sep)

lemma parseField_one_colon:
  "CHR '':'' \<notin> set p \<Longrightarrow> CHR '':'' \<notin> set t \<Longrightarrow>
   parseField (p @ CHR '':'' # t) = \<lparr>field = p, ftype = Some t\<rparr>"
  by (simp add: parseField_def split_append_sep split_no_sep)

lemma parseField_two_colons:
  "CHR '':'' \<notin> set p \<Longrightarrow> CHR '':'' \<notin> set t \<Longrightarrow>
   parseField (p @ CHR '':'' # t @ CHR '':'' # rest) = \<lparr>field = p, ftype = Some t\<rparr>"
  by (simp add: parseField_def split_append_sep)

subsection \<open>The schema rule of a field\<close>

text \<open>
  Claim C1, as the code has it. In \<^verbatim>\<open>index.ts\<close> the rule is fixed by the type tag: one rule
  each for \<^verbatim>\<open>email\<close>, \<^verbatim>\<open>password\<close>, \<^verbatim>\<open>number\<close>, \<^verbatim>\<open>file\<close>, \<^verbatim>\<open>files\<close> and \<^verbatim>\<open>date\<close>, and
  the generic string rule for every other tag, the undefined one included. The renderer
  of \<^verbatim>\<open>part_000\<close> gives the same rules, except that it has no case for \<^verbatim>\<open>date\<close>, which
  gets the generic string rule there.
\<close>

theorem renderSchemaField_by_type:
  \<open>(t = Some ''email'' \<longrightarrow>
      renderSchemaField \<lparr>field = n, ftype = t\<rparr> = ''  '' @ n @ '': z.string().email(),'' \<and>
      renderSchemaField_part0 \<lparr>field = n, ftype = t\<rparr> = ''  '' @ n @ '': z.string().email(),'') \<and>
   (t = Some ''password'' \<longrightarrow>
      renderSchemaField \<lparr>field = n, ftype = t\<rparr> =
        ''  '' @ n @ '': z.string().min(8, { message: "Password must be minimum 8 characters" }),'' \<and>
      renderSchemaField_part0 \<lparr>field = n, ftype = t\<rparr> =
        ''  '' @ n @ '': z.string().min(8, { message: "Password must be minimum 8 characters" }),'') \<and>
   (t = Some ''number'' \<longrightarrow>
      renderSchemaField \<lparr>field = n, ftype = t\<rparr> = ''  '' @ n @ '': z.number(),'' \<and>
      renderSchemaField_part0 \<lparr>field = n, ftype = t\<rparr> = ''  '' @ n @ '': z.number(),'') \<and>
   (t = Some ''file'' \<longrightarrow>
      renderSchemaField \<lparr>field = n, ftype = t\<rparr> = ''  '' @ n @ '': z.instanceof(File),'' \<and>
      renderSchemaField_part0 \<lparr>field = n, ftype = t\<rparr> = ''  '' @ n @ '': z.instanceof(File),'') \<and>
   (t = Some ''files'' \<longrightarrow>
      renderSchemaField \<lparr>field = n, ftype = t\<rparr> = ''  '' @ n @ '': z.array(z.instanceof(File)),'' \<and>
      renderSchemaField_part0 \<lparr>field = n, ftype = t\<rparr> = ''  '' @ n @ '': z.array(z.instanceof(File)),'') \<and>
   (t = Some ''date'' \<longrightarrow>
      renderSchemaField \<lparr>field = n, ftype = t\<rparr> = ''  '' @ n @ '': z.date(),'' \<and>
      renderSchemaField_part0 \<lparr>field = n, ftype = t\<rparr> = ''  '' @ n @ '': z.string(),'') \<and>
   (t \<notin> {Some ''email'', Some ''password'', Some ''number'', Some ''file'', Some ''files'', Some ''date''} \<longrightarrow>
      renderSchemaField \<lparr>field = n, ftype = t\<rparr> = ''  '' @ n @ '': z.string(),'' \<and>
      renderSchemaField_part0 \<lparr>field = n, ftype = t\<rparr> = ''  '' @ n @ '': z.string(),'')\<close>
  by (simp add: renderSchemaField_def renderSchemaField_part0_def)

theorem renderSchemaField_part0_date_counterexample:
  \<open>renderSchemaField_part0 \<lparr>field = ''born'', ftype = Some ''date''\<rparr> = ''  born: z.string(),'' \<and>
   renderSchemaField_part0 \<lparr>field = ''born'', ftype = Some ''date''\<rparr> \<noteq> ''  born: z.date(),''\<close>
  by (simp add: renderSchemaField_part0_def)

theorem renderSchemaField_by_type_witness:
  \<open>Some ''date'' = Some ''date'' \<and>
   renderSchemaField \<lparr>field = ''born'', ftype = Some ''date''\<rparr> = ''  born: z.date(),'' \<and>
   renderSchemaField_part0 \<lparr>field = ''born'', ftype = Some ''date''\<rparr> = ''  born: z.string(),'' \<and>
   None \<notin> {Some ''email'', Some ''password'', Some ''number'', Some ''file'', Some ''files'', Some ''date''} \<and>
   renderSchemaField \<lparr>field = ''born'', ftype = None\<rparr> = ''  born: z.string(),''\<close>
  using renderSchemaField_by_type [of "Some ''date''" "''born''"]
        renderSchemaField_by_type [of None "''born''"]
  by simp

subsection \<open>A field argument without a colon\<close>

text \<open>
  Claim C5. An argument with no \<^verbatim>\<open>:\<close> is parsed without failure: the whole argument is
  the field name and the type tag is undefined. Its schema rule is the generic string
  rule, the one every unrecognised tag \<open>t\<close> gets, and its input fragment is the
  \<^verbatim>\<open>Input\<close> widget of the last branch of \<^verbatim>\<open>renderInput\<close>, the branch of every tag other
  than \<^verbatim>\<open>textarea\<close> and \<^verbatim>\<open>files\<close>; the type attribute there is the text \<^verbatim>\<open>undefined\<close>.
\<close>

theorem no_colon_fallback:
  assumes "CHR '':'' \<notin> set arg"
  shows \<open>parseField arg = \<lparr>field = arg, ftype = None\<rparr> \<and>
         renderSchemaField (parseField arg) = ''  '' @ arg @ '': z.string(),'' \<and>
         renderInput (parseField arg) name =
           ''<Input {...attrs} bind:value={$'' @ name @ ''Data.'' @ arg @ ''} type="undefined" />'' \<and>
         (t \<notin> {''email'', ''password'', ''number'', ''file'', ''files'', ''date''} \<longrightarrow>
            renderSchemaField \<lparr>field = arg, ftype = Some t\<rparr> = renderSchemaField (parseField arg)) \<and>
         (t \<notin> {''textarea'', ''files''} \<longrightarrow>
            renderInput \<lparr>field = arg, ftype = Some t\<rparr> name =
              ''<Input {...attrs} bind:value={$'' @ name @ ''Data.'' @ arg @ ''} type="'' @ t @ ''" />'')\<close>
  by (simp add: parseField_no_colon[OF assms] renderSchemaField_def renderInput_def typeText_def)

theorem no_colon_fallback_witness:
  \<open>CHR '':'' \<notin> set ''title'' \<and>
   parseField ''title'' = \<lparr>field = ''title'', ftype = None\<rparr> \<and>
   renderSchemaField (parseField ''title'') = ''  title: z.string(),'' \<and>
   renderInput (parseField ''title'') ''post'' =
     ''<Input {...attrs} bind:value={$postData.title} type="undefined" />'' \<and>
   renderSchemaField \<lparr>field = ''title'', ftype = Some ''text''\<rparr> = renderSchemaField (parseField ''title'') \<and>
   renderInput \<lparr>field = ''title'', ftype = Some ''text''\<rparr> ''post'' =
     ''<Input {...attrs} bind:value={$postData.title} type="text" />''\<close>
proof -
  have h: "CHR '':'' \<notin> set ''title''" by simp
  show ?thesis using h no_colon_fallback [OF h, of "''post''" "''text''"] by auto
qed

subsection \<open>Parsing is total\<close>

lemma renderField_not_Nil: "renderField rt f name \<noteq> []"
  by (simp add: renderField_def)

lemma renderSchemaField_not_Nil: "renderSchemaField f \<noteq> []"
  by (simp add: renderSchemaField_def)

text \<open>
  Claim C10. Parsing a field argument never fails: \<^verbatim>\<open>split\<close> always returns at least one
  piece, so the field name is always a string, the text before the first \<^verbatim>\<open>:\<close> (the whole
  argument when there is none). The type tag is undefined when there is no \<^verbatim>\<open>:\<close>, and else
  the text between the first \<^verbatim>\<open>:\<close> and the second; what follows a second \<^verbatim>\<open>:\<close> is dropped.
  Rendering the parsed field gives a string, which is never empty.
\<close>

theorem parseField_total:
  "split CHR '':'' arg \<noteq> [] \<and>
   field (parseField arg) = takeWhile (\<lambda>x. x \<noteq> CHR '':'') arg \<and>
   (CHR '':'' \<notin> set arg \<longrightarrow> parseField arg = \<lparr>field = arg, ftype = None\<rparr>) \<and>
   (CHR '':'' \<notin> set p \<and> CHR '':'' \<notin> set t \<longrightarrow>
      parseField (p @ '':'' @ t) = \<lparr>field = p, ftype = Some t\<rparr> \<and>
      parseField (p @ '':'' @ t @ '':'' @ rest) = \<lparr>field = p, ftype = Some t\<rparr>) \<and>
   renderField rt (parseField arg) name \<noteq> [] \<and>
   renderSchemaField (parseField arg) \<noteq> []"
proof -
  have 1: "field (parseField arg) = takeWhile (\<lambda>x. x \<noteq> CHR '':'') arg"
    by (subst parseField_eq) simp
  have 2: "CHR '':'' \<notin> set arg \<longrightarrow> parseField arg = \<lparr>field = arg, ftype = None\<rparr>"
    by (simp add: parseField_no_colon)
  have 3: "CHR '':'' \<notin> set p \<and> CHR '':'' \<notin> set t \<longrightarrow>
      parseField (p @ '':'' @ t) = \<lparr>field = p, ftype = Some t\<rparr> \<and>
      parseField (p @ '':'' @ t @ '':'' @ rest) = \<lparr>field = p, ftype = Some t\<rparr>"
    using parseField_one_colon [of p t] parseField_two_colons [of p t rest] by simp
  show ?thesis
    using 1 2 3 split_not_Nil renderField_not_Nil renderSchemaField_not_Nil by blast
qed

theorem parseField_total_witness:
  "CHR '':'' \<notin> set ''title'' \<and> parseField ''title'' = \<lparr>field = ''title'', ftype = None\<rparr> \<and>
   CHR '':'' \<notin> set ''a'' \<and> CHR '':'' \<notin> set ''b'' \<and>
   parseField ''a:b'' = \<lparr>field = ''a'', ftype = Some ''b''\<rparr> \<and>
   parseField ''a:b:c:d'' = \<lparr>field = ''a'', ftype = Some ''b''\<rparr>"
  using parseField_total [of "''title''" "''a''" "''b''" "''c:d''"]
  by simp

subsection \<open>The two versions of the renderer\<close>

text \<open>
  Claim C9. The renderer of \<^verbatim>\<open>index.ts\<close> and the renderer of \<^verbatim>\<open>part_000\<close> are not
  equivalent: the pair of documents they produce differs, and it does so for every form
  name and every field list, since the server documents import their types differently.
\<close>

theorem renderers_differ:
  "(form_pageSvelte rt title name args, form_pageServer name args) \<noteq>
   (form_pageSvelte_part0 rt name args, form_pageServer_part0 name args)"
  by (simp add: form_pageServer_def form_pageServer_part0_def pageServer_def pageServer_part0_def)

text \<open>Three of the differences: the rule of a date field, the input fragment, the key of the action.\<close>

lemma date_rule_differs:
  "renderSchemaField \<lparr>field = n, ftype = Some ''date''\<rparr> \<noteq>
   renderSchemaField_part0 \<lparr>field = n, ftype = Some ''date''\<rparr>"
  by (simp add: renderSchemaField_def renderSchemaField_part0_def)

lemma renderInput_differs: "renderInput f name \<noteq> renderInput_part0 f name"
  by (simp add: renderInput_def renderInput_part0_def)

lemma action_key_differs:
  "pageServer ''post'' s r fl \<noteq> pageServer_part0 ''post'' s r fl"
  by (simp add: pageServer_def pageServer_part0_def)

subsection \<open>The init command when the clone fails\<close>

text \<open>
  Claim C6. When \<^verbatim>\<open>init\<close> is given its two arguments and the clone does not succeed, the
  run reports the failure and ends with status 1, and the clone is the only child process
  of the run: the \<^verbatim>\<open>.git\<close> folder is not moved and neither substitution is run. The report
  is the message \<^verbatim>\<open>Failed to clone the repository.\<close> when the child process fails, and the
  uncaught exception when starting it throws.
\<close>

theorem init_clone_failure:
  assumes "args \<noteq> []" and "args ! 0 = ''init''" and "3 \<le> length args"
    and "spawnSync rt (clone_cmd args) \<noteq> Some True"
  shows "snd (main rt args) = 1 \<and>
         fst (main rt args) =
           [SpawnSync (clone_cmd args),
            (if spawnSync rt (clone_cmd args) = None then Uncaught SpawnError
             else ConsoleError ''Failed to clone the repository.'')] \<and>
         SpawnSync (mv_cmd rt args) \<notin> set (fst (main rt args)) \<and>
         SpawnSync (sed_upper_cmd rt args) \<notin> set (fst (main rt args)) \<and>
         SpawnSync (sed_lower_cmd args) \<notin> set (fst (main rt args))"
proof (cases "spawnSync rt (clone_cmd args)")
  case None
  then show ?thesis using assms
    by (simp add: main_def clone_cmd_def mv_cmd_def sed_upper_cmd_def sed_lower_cmd_def)
next
  case (Some b)
  with assms(4) have "b = False" by simp
  with Some show ?thesis using assms(1-3)
    by (simp add: main_def clone_cmd_def mv_cmd_def sed_upper_cmd_def sed_lower_cmd_def)
qed

theorem init_clone_failure_witness:
  "[''init'', ''fullstack'', ''shop''] \<noteq> [] \<and> [''init'', ''fullstack'', ''shop''] ! 0 = ''init'' \<and>
   3 \<le> length [''init'', ''fullstack'', ''shop''] \<and>
   spawnSync bare_runtime (clone_cmd [''init'', ''fullstack'', ''shop'']) \<noteq> Some True \<and>
   main bare_runtime [''init'', ''fullstack'', ''shop''] =
     ([SpawnSync [''git'', ''clone'', ''https://github.com/svails/fullstack'', ''shop''],
       ConsoleError ''Failed to clone the repository.''], 1)"
proof -
  let ?args = "[''init'', ''fullstack'', ''shop'']"
  have h1: "?args \<noteq> []" and h2: "?args ! 0 = ''init''" and h3: "3 \<le> length ?args" by simp_all
  have h4: "spawnSync bare_runtime (clone_cmd ?args) \<noteq> Some True"
    by (simp add: bare_runtime_def)
  have c: "clone_cmd ?args = [''git'', ''clone'', ''https://github.com/svails/fullstack'', ''shop'']"
    by (simp add: clone_cmd_def)
  have s: "spawnSync bare_runtime (clone_cmd ?args) = Some False"
    by (simp add: bare_runtime_def)
  from init_clone_failure [OF h1 h2 h3 h4]
  have "snd (main bare_runtime ?args) = 1"
    and "fst (main bare_runtime ?args) =
           [SpawnSync (clone_cmd ?args), ConsoleError ''Failed to clone the repository.'']"
    unfolding s by simp_all
  then have "main bare_runtime ?args =
       ([SpawnSync (clone_cmd ?args), ConsoleError ''Failed to clone the repository.''], 1)"
    by (metis prod.collapse)
  with h1 h2 h3 h4 show ?thesis unfolding c by blast
qed

text \<open>For comparison, the run in which every child process succeeds.\<close>

lemma init_clone_success:
  assumes "args ! 0 = ''init''" and "3 \<le> length args"
    and "\<forall>cmd. spawnSync rt cmd = Some True"
  shows "main rt args =
           ([SpawnSync (clone_cmd args), SpawnSync (mv_cmd rt args),
             SpawnSync (sed_upper_cmd rt args), SpawnSync (sed_lower_cmd args)], 0)"
  using assms by (auto simp add: main_def)

subsection \<open>The title and the project manifest\<close>

lemma folder_at_next:
  "(if folder_at k = ''.'' then ''../'' else folder_at k @ ''../'') = folder_at (Suc k)"
proof (cases k)
  case 0
  then show ?thesis by (simp add: folder_at_def)
next
  case (Suc j)
  have "concat (replicate j ''../'') @ ''../'' = ''../'' @ concat (replicate j ''../'')"
    by (induction j) simp_all
  then show ?thesis using Suc by (simp add: folder_at_def)
qed

lemma projectName_loop_not_found:
  "(\<forall>i<n. \<exists>files. readdir rt (folder_at (k + i)) = Some files \<and> ''package.json'' \<notin> set files)
   \<Longrightarrow> projectName_loop rt n (folder_at k) = Inr JNull"
proof (induction n arbitrary: k)
  case 0
  then show ?case by simp
next
  case (Suc n)
  from Suc.prems have "\<exists>files. readdir rt (folder_at (k + 0)) = Some files \<and> ''package.json'' \<notin> set files"
    by blast
  then obtain files where f: "readdir rt (folder_at k) = Some files" "''package.json'' \<notin> set files"
    by auto
  have "\<forall>i<n. \<exists>files. readdir rt (folder_at (Suc k + i)) = Some files \<and> ''package.json'' \<notin> set files"
    using Suc.prems by (metis Suc_less_eq add_Suc_right add_Suc)
  then have "projectName_loop rt n (folder_at (Suc k)) = Inr JNull" by (rule Suc.IH)
  then show ?case using f by (simp only: projectName_loop.simps folder_at_next) simp
qed

lemma projectName_loop_found:
  assumes "j < n"
    and "\<forall>i<j. \<exists>files. readdir rt (folder_at (k + i)) = Some files \<and> ''package.json'' \<notin> set files"
    and "readdir rt (folder_at (k + j)) = Some files" and "''package.json'' \<in> set files"
  shows "projectName_loop rt n (folder_at k) =
           (case fileText rt (folder_at (k + j) @ ''package.json'') of
              None \<Rightarrow> Inl FileReadError
            | Some body \<Rightarrow> (case jsonName rt body of None \<Rightarrow> Inl JsonError | Some v \<Rightarrow> Inr v))"
  using assms
proof (induction n arbitrary: k j)
  case 0
  then show ?case by simp
next
  case (Suc n)
  show ?case
  proof (cases j)
    case 0
    then show ?thesis using Suc.prems by simp
  next
    case (Suc j')
    from Suc.prems(2) Suc have "\<exists>files. readdir rt (folder_at (k + 0)) = Some files \<and> ''package.json'' \<notin> set files"
      by blast
    then obtain fs0 where f: "readdir rt (folder_at k) = Some fs0" "''package.json'' \<notin> set fs0"
      by auto
    have a: "j' < n" using Suc.prems(1) Suc by simp
    have b: "\<forall>i<j'. \<exists>files. readdir rt (folder_at (Suc k + i)) = Some files \<and> ''package.json'' \<notin> set files"
      using Suc.prems(2) Suc by (metis Suc_less_eq add_Suc_right add_Suc)
    have c: "readdir rt (folder_at (Suc k + j')) = Some files" using Suc.prems(3) Suc by simp
    have "projectName_loop rt n (folder_at (Suc k)) =
           (case fileText rt (folder_at (Suc k + j') @ ''package.json'') of
              None \<Rightarrow> Inl FileReadError
            | Some body \<Rightarrow> (case jsonName rt body of None \<Rightarrow> Inl JsonError | Some v \<Rightarrow> Inr v))"
      using Suc.IH [OF a b c Suc.prems(4)] .
    then show ?thesis using f Suc by (simp only: projectName_loop.simps folder_at_next) simp
  qed
qed

lemma renderTitle_no_manifest:
  assumes "\<forall>i<10. \<exists>files. readdir rt (folder_at i) = Some files \<and> ''package.json'' \<notin> set files"
  shows "renderTitle rt name = Inr (titleCase rt name)"
proof -
  have "projectName_loop rt 10 (folder_at 0) = Inr JNull"
    by (rule projectName_loop_not_found) (use assms in simp)
  then show ?thesis by (simp add: renderTitle_def projectName_def folder_at_def truthy_def)
qed

lemma renderTitle_parent_manifest:
  assumes "0 < j" and "j < 10"
    and "\<forall>i<j. \<exists>files. readdir rt (folder_at i) = Some files \<and> ''package.json'' \<notin> set files"
    and "readdir rt (folder_at j) = Some files" and "''package.json'' \<in> set files"
    and "fileText rt (concat (replicate j ''../'') @ ''package.json'') = Some body"
    and "jsonName rt body = Some (JString p)" and "p \<noteq> []"
  shows "renderTitle rt name = Inr (titleCase rt name @ '' - '' @ titleCase rt p)"
proof -
  have "projectName_loop rt 10 (folder_at 0) =
           (case fileText rt (folder_at (0 + j) @ ''package.json'') of
              None \<Rightarrow> Inl FileReadError
            | Some body \<Rightarrow> (case jsonName rt body of None \<Rightarrow> Inl JsonError | Some v \<Rightarrow> Inr v))"
    by (rule projectName_loop_found [where files = files]) (use assms in simp_all)
  moreover have "folder_at (0 + j) = concat (replicate j ''../'')"
    using assms(1) by (simp add: folder_at_def)
  ultimately have "projectName rt = Inr (JString p)"
    using assms(6,7) by (simp add: projectName_def folder_at_def)
  then show ?thesis using assms(8) by (simp add: renderTitle_def truthy_def)
qed

lemma projectName_cwd_manifest:
  assumes "readdir rt ''.'' = Some files" and "''package.json'' \<in> set files"
  shows "projectName rt =
           (case fileText rt ''.package.json'' of
              None \<Rightarrow> Inl FileReadError
            | Some body \<Rightarrow> (case jsonName rt body of None \<Rightarrow> Inl JsonError | Some v \<Rightarrow> Inr v))"
  using assms by (simp add: projectName_def numeral_eq_Suc)

text \<open>
  Claim C8 says that the title carries the project name whenever a manifest is found within
  ten levels. The code does that for a manifest in a parent folder (lemma
  \<open>renderTitle_parent_manifest\<close>) and omits the name when there is no manifest (lemma
  \<open>renderTitle_no_manifest\<close>). For a manifest in the working directory itself the path it
  reads is \<^verbatim>\<open>.package.json\<close>, the folder \<^verbatim>\<open>.\<close> and the file name with no separator (lemma
  \<open>projectName_cwd_manifest\<close>). In the run below the working directory holds a manifest
  that declares the name \<^verbatim>\<open>shop\<close>: the read fails and the run ends with an uncaught
  exception, with no title and no file written.
\<close>

theorem renderTitle_cwd_manifest_fails:
  "readdir cwd_manifest_runtime ''.'' = Some [''package.json'', ''src''] \<and>
   fileText cwd_manifest_runtime ''./package.json'' = Some manifest_body \<and>
   jsonName cwd_manifest_runtime manifest_body = Some (JString ''shop'') \<and>
   projectName cwd_manifest_runtime = Inl FileReadError \<and>
   renderTitle cwd_manifest_runtime ''signup'' = Inl FileReadError \<and>
   main cwd_manifest_runtime [''form'', ''signup'', ''email:email''] = ([Uncaught FileReadError], 1)"
proof -
  have p: "projectName cwd_manifest_runtime = Inl FileReadError"
    by (simp add: projectName_def numeral_eq_Suc cwd_manifest_runtime_def bare_runtime_def)
  then have t: "renderTitle cwd_manifest_runtime ''signup'' = Inl FileReadError"
    by (simp add: renderTitle_def)
  have m: "main cwd_manifest_runtime [''form'', ''signup'', ''email:email''] = ([Uncaught FileReadError], 1)"
    using t by (simp add: main_def form_def)
  show ?thesis using p t m by (simp add: cwd_manifest_runtime_def bare_runtime_def)
qed

subsection \<open>Running the form command again\<close>

lemma titleCase_cong: "toUpperCase rt1 = toUpperCase rt2 \<Longrightarrow> titleCase rt1 s = titleCase rt2 s"
  by (simp add: titleCase_def)

lemma renderField_cong:
  "toUpperCase rt1 = toUpperCase rt2 \<Longrightarrow> renderField rt1 f name = renderField rt2 f name"
  by (simp add: renderField_def titleCase_cong [of rt1 rt2])

lemma renderedFields_of_cong:
  "toUpperCase rt1 = toUpperCase rt2 \<Longrightarrow> renderedFields_of rt1 name flds = renderedFields_of rt2 name flds"
  by (simp add: renderedFields_of_def renderField_cong [of rt1 rt2])

lemma pageSvelte_cong:
  "toUpperCase rt1 = toUpperCase rt2 \<Longrightarrow> pageSvelte rt1 name h t rf = pageSvelte rt2 name h t rf"
  by (simp add: pageSvelte_def titleCase_cong [of rt1 rt2])

lemma form_pageSvelte_cong:
  "toUpperCase rt1 = toUpperCase rt2 \<Longrightarrow>
   form_pageSvelte rt1 title name args = form_pageSvelte rt2 title name args"
  by (simp add: form_pageSvelte_def renderedFields_of_cong [of rt1 rt2] pageSvelte_cong [of rt1 rt2])


lemma documents_form:
  "documents (fst (form rt name args)) =
     (case renderTitle rt name of
        Inl e \<Rightarrow> []
      | Inr title \<Rightarrow> [(name @ ''/+page.svelte'', form_pageSvelte rt title name args),
                      (name @ ''/+page.server.ts'', form_pageServer name args)])"
  by (simp add: form_def Let_def split: sum.splits)

lemma pageSvelte_title_inj:
  "pageSvelte rt name h t1 rf = pageSvelte rt name h t2 rf \<Longrightarrow> t1 = t2"
  by (simp add: pageSvelte_def)

lemma renderTitle_bare: "renderTitle bare_runtime ''signup'' = Inr ''Signup''"
  by (simp add: renderTitle_def projectName_def numeral_eq_Suc bare_runtime_def truthy_def
        titleCase_def charAt0_def slice1_def asciiUpper_def)

lemma renderTitle_parent:
  "renderTitle parent_manifest_runtime ''signup'' = Inr ''Signup - Shop''"
  by (simp add: renderTitle_def projectName_def numeral_eq_Suc parent_manifest_runtime_def
        bare_runtime_def truthy_def titleCase_def charAt0_def slice1_def asciiUpper_def)






text \<open>
  The environment is part of what fixes the view document, through the title: in another
  environment, one where the parent folder holds a manifest, the same command writes
  another page.
\<close>

lemma form_documents_other_environment:
  "documents (fst (form bare_runtime ''signup'' [''email:email''])) \<noteq>
   documents (fst (form parent_manifest_runtime ''signup'' [''email:email'']))"
proof -
  have u: "toUpperCase parent_manifest_runtime = toUpperCase bare_runtime"
    by (simp add: parent_manifest_runtime_def)
  have "form_pageSvelte bare_runtime ''Signup'' ''signup'' [''email:email''] \<noteq>
        form_pageSvelte bare_runtime ''Signup - Shop'' ''signup'' [''email:email'']"
    unfolding form_pageSvelte_def Let_def
  proof
    assume "pageSvelte bare_runtime ''signup''
      (renderHeader (renderedFields_of bare_runtime ''signup'' (map parseField [''email:email''])))
      ''Signup''
      (renderedFields_of bare_runtime ''signup'' (map parseField [''email:email''])) =
     pageSvelte bare_runtime ''signup''
      (renderHeader (renderedFields_of bare_runtime ''signup'' (map parseField [''email:email''])))
      ''Signup - Shop''
      (renderedFields_of bare_runtime ''signup'' (map parseField [''email:email'']))"
    then have "''Signup'' = ''Signup - Shop''"
      by (rule pageSvelte_title_inj)
    then show False by simp
  qed
  then show ?thesis
    by (simp add: documents_form renderTitle_bare renderTitle_parent form_pageSvelte_cong [OF u])
qed

subsection \<open>Joining the schema rules\<close>

lemma join_last: "xs \<noteq> [] \<Longrightarrow> \<exists>p. join sep xs = p @ last xs"
proof (induction sep xs rule: join.induct)
  case (3 sep x y ys)
  then obtain p where "join sep (y # ys) = p @ last (y # ys)" by auto
  then have "join sep (x # y # ys) = (x @ sep @ p) @ last (x # y # ys)" by simp
  then show ?case by blast
qed simp_all

lemma trimEnd_join:
  assumes "\<And>x. x \<in> set xs \<Longrightarrow> \<exists>q c. x = q @ [c] \<and> \<not> isWhiteSpace c"
  shows "trimEnd (join sep xs) = join sep xs"
proof (cases xs)
  case Nil
  then show ?thesis by (simp add: trimEnd_Nil)
next
  case (Cons a as)
  then have ne: "xs \<noteq> []" by simp
  then obtain p where p: "join sep xs = p @ last xs" using join_last by blast
  from ne have "last xs \<in> set xs" by simp
  then obtain q c where q: "last xs = q @ [c]" "\<not> isWhiteSpace c" using assms by blast
  have "trimEnd ((p @ q) @ [c]) = (p @ q) @ [c]" using q(2) by (rule trimEnd_snoc)
  then show ?thesis using p q(1) by simp
qed

lemma renderSchemaField_ends:
  "\<exists>q c. renderSchemaField f = q @ [c] \<and> \<not> isWhiteSpace c"
proof -
  have "\<exists>q. renderSchemaField f = q @ '',''"
    unfolding renderSchemaField_def
    by (simp only: append_assoc [symmetric] if_distrib [of "\<lambda>s. \<exists>q. s = q @ '',''"])
       (auto intro: exI)
  then show ?thesis by (auto simp: isWhiteSpace_def)
qed


lemma renderSchemaField_part0_ends:
  "\<exists>q c. renderSchemaField_part0 f = q @ [c] \<and> \<not> isWhiteSpace c"
proof -
  have "\<exists>q. renderSchemaField_part0 f = q @ '',''"
    unfolding renderSchemaField_part0_def
    by (simp only: append_assoc [symmetric] if_distrib [of "\<lambda>s. \<exists>q. s = q @ '',''"])
       (auto intro: exI)
  then show ?thesis by (auto simp: isWhiteSpace_def)
qed

lemma renderedSchemaFields_of_eq:
  "renderedSchemaFields_of flds = join ''\<newline>'' (map renderSchemaField flds)"
  unfolding renderedSchemaFields_of_def
  by (rule trimEnd_join) (use renderSchemaField_ends in auto)

lemma renderedSchemaFields_of_part0_eq:
  "renderedSchemaFields_of_part0 flds = join ''\<newline>'' (map renderSchemaField_part0 flds)"
  unfolding renderedSchemaFields_of_part0_def
  by (rule trimEnd_join) (use renderSchemaField_part0_ends in auto)

subsection \<open>Where a marker can occur in rendered text\<close>

text \<open>
  The header and the form tag are decided by searching the rendered field blocks for a
  marker. The text between two inserted strings is fixed, so an occurrence of the marker
  is found by walking the template: a character that is not in the marker separates what
  is before it from what is after it, and an inserted string without the double quote
  cannot hold a marker that has one.
\<close>

lemma sublist_sep:
  assumes "c \<notin> set m"
  shows "sublist m (u @ c # ys) \<longleftrightarrow> sublist m u \<or> sublist m ys"
proof
  assume "sublist m (u @ c # ys)"
  then consider "sublist m u" | "sublist m (c # ys)"
    | m1 m2 where "m = m1 @ m2" "suffix m1 u" "prefix m2 (c # ys)"
    unfolding sublist_append by blast
  then show "sublist m u \<or> sublist m ys"
  proof cases
    case 1
    then show ?thesis by simp
  next
    case 2
    then have "prefix m (c # ys) \<or> sublist m ys" by (simp add: sublist_Cons_right)
    moreover have "prefix m (c # ys) \<Longrightarrow> m = []"
      using assms by (cases m) auto
    ultimately show ?thesis by auto
  next
    case 3
    have "m2 = []" using 3(1,3) assms by (cases m2) auto
    then have "suffix m u" using 3 by simp
    then show ?thesis by (auto intro: suffix_imp_sublist)
  qed
next
  assume "sublist m u \<or> sublist m ys"
  then show "sublist m (u @ c # ys)"
    by (auto simp: sublist_append sublist_Cons_right)
qed

lemma sublist_sep_Cons:
  "c \<notin> set m \<Longrightarrow> m \<noteq> [] \<Longrightarrow> sublist m (c # ys) \<longleftrightarrow> sublist m ys"
  using sublist_sep [of c m "[]" ys] by simp

lemma not_sublist_missing: "q \<in> set m \<Longrightarrow> q \<notin> set u \<Longrightarrow> \<not> sublist m u"
  using set_mono_sublist by fastforce

lemma sublist_join:
  assumes "CHR ''\<newline>'' \<notin> set m" and "m \<noteq> []"
  shows "sublist m (join ''\<newline>\<newline>'' bs) \<longleftrightarrow> (\<exists>b\<in>set bs. sublist m b)"
proof (induction "''\<newline>\<newline>''" bs rule: join.induct)
  case 1
  then show ?case using assms(2) by simp
next
  case (2 x)
  then show ?case by simp
next
  case (3 x y ys)
  have "sublist m (x @ CHR ''\<newline>'' # CHR ''\<newline>'' # join ''\<newline>\<newline>'' (y # ys))
        \<longleftrightarrow> sublist m x \<or> sublist m (join ''\<newline>\<newline>'' (y # ys))"
    using assms by (simp add: sublist_sep sublist_sep_Cons)
  then show ?case using 3 by simp
qed

lemma sublist_Input_renderField:
  "sublist ''Input'' (renderField rt f name) \<longleftrightarrow>
     ftype f \<noteq> Some ''textarea'' \<or> sublist ''Input'' name \<or> sublist ''Input'' (field f)
     \<or> sublist ''Input'' (titleCase rt (field f))"
  by (simp add: renderField_def renderInput_def sublist_sep sublist_Cons_right) blast


lemma sublist_Textarea_renderField:
  "sublist ''Textarea'' (renderField rt f name) \<longleftrightarrow>
     ftype f = Some ''textarea'' \<or> sublist ''Textarea'' name \<or> sublist ''Textarea'' (field f)
     \<or> sublist ''Textarea'' (titleCase rt (field f))
     \<or> (ftype f \<noteq> Some ''files'' \<and> sublist ''Textarea'' (typeText (ftype f)))"
  by (simp add: renderField_def renderInput_def sublist_sep sublist_Cons_right) blast

lemma first_occurrence_unique:
  assumes "m1 @ c # r1 = m2 @ c # r2" and "c \<notin> set m1" and "c \<notin> set m2"
  shows "m1 = m2 \<and> r1 = r2"
  using assms
proof (induction m1 arbitrary: m2)
  case Nil
  then show ?case by (cases m2) auto
next
  case (Cons a m1)
  then show ?case by (cases m2) auto
qed

lemma prefix_upto_sep:
  assumes "q \<notin> set u" and "q \<notin> set p"
  shows "prefix (p @ q # t) (u @ q # r) \<longleftrightarrow> u = p \<and> prefix t r"
proof
  assume "prefix (p @ q # t) (u @ q # r)"
  then obtain z where "u @ q # r = p @ q # (t @ z)" by (auto simp: prefix_def)
  then have "u = p \<and> r = t @ z" using first_occurrence_unique assms by metis
  then show "u = p \<and> prefix t r" by simp
next
  assume "u = p \<and> prefix t r"
  then show "prefix (p @ q # t) (u @ q # r)" by simp
qed

lemma sublist_at_sep:
  assumes "q \<notin> set u" and "q \<notin> set p"
  shows "sublist (p @ q # s) (u @ q # ys) \<longleftrightarrow>
           (suffix p u \<and> prefix s ys) \<or> sublist (p @ q # s) ys"
proof
  assume "sublist (p @ q # s) (u @ q # ys)"
  then consider "sublist (p @ q # s) u" | "sublist (p @ q # s) (q # ys)"
    | m1 m2 where "p @ q # s = m1 @ m2" "suffix m1 u" "prefix m2 (q # ys)"
    unfolding sublist_append by blast
  then show "(suffix p u \<and> prefix s ys) \<or> sublist (p @ q # s) ys"
  proof cases
    case 1
    then show ?thesis using not_sublist_missing [of q "p @ q # s" u] assms by simp
  next
    case 2
    then have "prefix (p @ q # s) (q # ys) \<or> sublist (p @ q # s) ys"
      by (simp add: sublist_Cons_right)
    moreover have "prefix (p @ q # s) (q # ys) \<Longrightarrow> p = [] \<and> prefix s ys"
      using assms(2) by (cases p) auto
    ultimately show ?thesis by auto
  next
    case 3
    show ?thesis
    proof (cases m2)
      case Nil
      then have "suffix (p @ q # s) u" using 3 by simp
      then have "sublist (p @ q # s) u" by (rule suffix_imp_sublist)
      then show ?thesis using not_sublist_missing [of q "p @ q # s" u] assms by simp
    next
      case (Cons a m2')
      then have a: "a = q" and pr: "prefix m2' ys" using 3(3) by auto
      have "q \<notin> set m1" using 3(2) assms(1) by (meson set_mono_suffix subsetD)
      then have "p = m1 \<and> s = m2'"
        using first_occurrence_unique [of p q s m1 m2'] 3(1) Cons a assms(2) by simp
      then show ?thesis using 3(2) pr by simp
    qed
  qed
next
  assume "(suffix p u \<and> prefix s ys) \<or> sublist (p @ q # s) ys"
  then show "sublist (p @ q # s) (u @ q # ys)"
  proof
    assume a: "suffix p u \<and> prefix s ys"
    then obtain u0 where "u = u0 @ p" by (auto simp: suffix_def)
    moreover from a obtain z where "ys = s @ z" by (auto simp: prefix_def)
    ultimately have "u @ q # ys = u0 @ (p @ q # s) @ z" by simp
    then show ?thesis unfolding sublist_def by blast
  next
    assume "sublist (p @ q # s) ys"
    then show ?thesis by (simp add: sublist_append sublist_Cons_right)
  qed
qed

lemma prefix_past_sep:
  assumes "q \<in> set w" and "c \<notin> set w" and "q \<notin> set u"
  shows "\<not> prefix w (u @ c # ys)"
proof
  assume "prefix w (u @ c # ys)"
  then have "prefix w u \<or> (\<exists>w'. w = u @ w' \<and> prefix w' (c # ys))"
    by (auto simp: prefix_append)
  then show False
  proof
    assume "prefix w u"
    then have "set w \<subseteq> set u" by (rule set_mono_prefix)
    then show False using assms(1,3) by auto
  next
    assume "\<exists>w'. w = u @ w' \<and> prefix w' (c # ys)"
    then obtain w' where w: "w = u @ w'" "prefix w' (c # ys)" by blast
    have "w' \<noteq> []" using w(1) assms(1,3) by auto
    then have "c \<in> set w'" using w(2) by (cases w') auto
    then show False using w(1) assms(2) by simp
  qed
qed

lemmas sublist_at_quote_file =
  sublist_at_sep [of "CHR 0x22" _ "''type=''" "''file'' @ [CHR 0x22]", simplified]

lemmas prefix_file_quote =
  prefix_upto_sep [of "CHR 0x22" _ "''file''" "[]", simplified]

lemma sublist_file_renderField:
  assumes "CHR 0x22 \<notin> set name" and "CHR 0x22 \<notin> set (field f)"
    and "CHR 0x22 \<notin> set (titleCase rt (field f))" and "CHR 0x22 \<notin> set (typeText (ftype f))"
  shows \<open>sublist ''type="file"'' (renderField rt f name) \<longleftrightarrow>
           ftype f = Some ''files'' \<or> ftype f = Some ''file''\<close>
proof -
  have n: \<open>\<not> sublist ''type="file"'' name\<close>
    by (rule not_sublist_missing [of "CHR 0x22"]) (use assms in simp_all)
  have fl: \<open>\<not> sublist ''type="file"'' (field f)\<close>
    by (rule not_sublist_missing [of "CHR 0x22"]) (use assms in simp_all)
  have tc: \<open>\<not> sublist ''type="file"'' (titleCase rt (field f))\<close>
    by (rule not_sublist_missing [of "CHR 0x22"]) (use assms in simp_all)
  have tt: "typeText (ftype f) = ''file'' \<longleftrightarrow> ftype f = Some ''file''"
    by (auto simp: typeText_def split: option.splits)
  show ?thesis
    using assms n fl tc
    by (simp add: renderField_def renderInput_def sublist_sep sublist_Cons_right
          sublist_at_quote_file prefix_file_quote tt)
qed


lemmas sublist_at_quote_enctype =
  sublist_at_sep [of "CHR 0x22" _ "'' enctype=''" "''multipart/form-data'' @ [CHR 0x22]", simplified]

lemma prefix_past_sep_quote:
  "CHR 0x22 \<in> set w \<Longrightarrow> c \<notin> set w \<Longrightarrow> CHR 0x22 \<notin> set u \<Longrightarrow> prefix w (u @ c # ys) = False"
  using prefix_past_sep [of "CHR 0x22" w c u ys] by simp

lemma sublist_past_var:
  assumes "q \<in> set m" and "q \<notin> set u" and "c \<notin> set (tl m)"
  shows "sublist m (u @ c # ys) \<longleftrightarrow> sublist m (c # ys)"
proof
  have nu: "\<not> sublist m u" using assms(1,2) by (rule not_sublist_missing)
  assume "sublist m (u @ c # ys)"
  then consider "sublist m u" | "sublist m (c # ys)"
    | m1 m2 where "m = m1 @ m2" "suffix m1 u" "prefix m2 (c # ys)"
    unfolding sublist_append by blast
  then show "sublist m (c # ys)"
  proof cases
    case 1
    with nu show ?thesis by simp
  next
    case 2
    then show ?thesis .
  next
    case 3
    show ?thesis
    proof (cases m1)
      case Nil
      with 3 have "prefix m (c # ys)" by simp
      then show ?thesis by (rule prefix_imp_sublist)
    next
      case m1: (Cons a m1')
      show ?thesis
      proof (cases m2)
        case Nil
        with 3 have "suffix m u" by simp
        then have "sublist m u" by (rule suffix_imp_sublist)
        with nu show ?thesis by simp
      next
        case (Cons b m2')
        with 3(3) have "b = c" by simp
        with 3(1) Cons m1 have "tl m = m1' @ c # m2'" by simp
        then have "c \<in> set (tl m)" by simp
        with assms(3) show ?thesis by simp
      qed
    qed
  qed
next
  assume "sublist m (c # ys)"
  then show "sublist m (u @ c # ys)" by (simp add: sublist_append)
qed

lemma sublist_past_var_quote:
  "CHR 0x22 \<in> set m \<Longrightarrow> CHR 0x22 \<notin> set u \<Longrightarrow> c \<notin> set (tl m) \<Longrightarrow>
   sublist m (u @ c # ys) \<longleftrightarrow> sublist m (c # ys)"
  by (rule sublist_past_var)

subsection \<open>The markers in the rendered field blocks and in the view document\<close>

lemma no_enctype_renderField:
  assumes "CHR 0x22 \<notin> set name" and "CHR 0x22 \<notin> set (field f)"
    and "CHR 0x22 \<notin> set (titleCase rt (field f))" and "CHR 0x22 \<notin> set (typeText (ftype f))"
  shows \<open>\<not> sublist '' enctype="multipart/form-data"'' (renderField rt f name)\<close>
proof -
  have n: \<open>\<not> sublist '' enctype="multipart/form-data"'' name\<close>
    by (rule not_sublist_missing [of "CHR 0x22"]) (use assms in simp_all)
  have fl: \<open>\<not> sublist '' enctype="multipart/form-data"'' (field f)\<close>
    by (rule not_sublist_missing [of "CHR 0x22"]) (use assms in simp_all)
  have tc: \<open>\<not> sublist '' enctype="multipart/form-data"'' (titleCase rt (field f))\<close>
    by (rule not_sublist_missing [of "CHR 0x22"]) (use assms in simp_all)
  show ?thesis
    using assms n fl tc
    by (simp add: renderField_def renderInput_def sublist_sep sublist_Cons_right
          sublist_at_quote_enctype)
qed

lemma renderHeader_cases:
  \<open>renderHeader rf =
     (if sublist ''Input'' rf then
        (if sublist ''Textarea'' rf
         then ''  import { Input } from "$ui/input";\<newline>  import { Textarea } from "$ui/textarea";''
         else ''  import { Input } from "$ui/input";'')
      else
        (if sublist ''Textarea'' rf then ''  import { Textarea } from "$ui/textarea";'' else []))\<close>
  by (simp add: renderHeader_def includes_str_sublist trimEnd_def isWhiteSpace_def)

lemma no_enctype_renderHeader:
  \<open>\<not> sublist '' enctype="multipart/form-data"'' (renderHeader rf)\<close>
  by (simp add: renderHeader_cases sublist_Cons_right)

lemma pageSvelte_enctype:
  assumes "CHR 0x22 \<notin> set name" and "CHR 0x22 \<notin> set title"
    and "CHR 0x22 \<notin> set (titleCase rt name)"
    and \<open>\<not> sublist '' enctype="multipart/form-data"'' rf\<close>
    and \<open>\<not> sublist '' enctype="multipart/form-data"'' h\<close>
  shows \<open>sublist '' enctype="multipart/form-data"'' (pageSvelte rt name h title rf) \<longleftrightarrow>
           sublist ''type="file"'' rf\<close>
proof -
  have n: \<open>\<not> sublist '' enctype="multipart/form-data"'' name\<close>
    by (rule not_sublist_missing [of "CHR 0x22"]) (use assms in simp_all)
  have t: \<open>\<not> sublist '' enctype="multipart/form-data"'' title\<close>
    by (rule not_sublist_missing [of "CHR 0x22"]) (use assms in simp_all)
  have tc: \<open>\<not> sublist '' enctype="multipart/form-data"'' (titleCase rt name)\<close>
    by (rule not_sublist_missing [of "CHR 0x22"]) (use assms in simp_all)
  show ?thesis
  proof (cases \<open>sublist ''type="file"'' rf\<close>)
    case True
    then have r: \<open>renderFormType rf = '' enctype="multipart/form-data"''\<close>
      by (simp add: renderFormType_def includes_str_sublist)
    show ?thesis
      using True assms n t tc unfolding pageSvelte_def r
      by (simp add: sublist_sep sublist_Cons_right sublist_at_quote_enctype prefix_past_sep_quote
            sublist_past_var_quote)
  next
    case False
    then have r: "renderFormType rf = []"
      by (simp add: renderFormType_def includes_str_sublist)
    show ?thesis
      using False assms n t tc unfolding pageSvelte_def r
      by (simp add: sublist_sep sublist_Cons_right sublist_at_quote_enctype prefix_past_sep_quote
            sublist_past_var_quote)
  qed
qed

lemma parseField_field_subset: "set (field (parseField arg)) \<subseteq> set arg"
  by (subst parseField_eq) (auto dest: set_takeWhileD)

lemma parseField_ftype_subset: "ftype (parseField arg) = Some t \<Longrightarrow> set t \<subseteq> set arg"
  by (subst (asm) parseField_eq)
     (auto split: if_splits dest!: set_takeWhileD in_set_dropD set_dropWhileD)

lemma typeText_no_quote:
  "CHR 0x22 \<notin> set arg \<Longrightarrow> CHR 0x22 \<notin> set (typeText (ftype (parseField arg)))"
  using parseField_ftype_subset [of arg]
  by (cases "ftype (parseField arg)") (auto simp: typeText_def)

lemma titleCase_no_quote:
  assumes "\<forall>s. CHR 0x22 \<notin> set s \<longrightarrow> CHR 0x22 \<notin> set (toUpperCase rt s)"
    and "CHR 0x22 \<notin> set s"
  shows "CHR 0x22 \<notin> set (titleCase rt s)"
proof -
  have "CHR 0x22 \<notin> set (take 1 s)" using assms(2) by (auto dest: in_set_takeD)
  then have "CHR 0x22 \<notin> set (toUpperCase rt (take 1 s))" using assms(1) by blast
  moreover have "CHR 0x22 \<notin> set (drop 1 s)" using assms(2) by (auto dest: in_set_dropD)
  ultimately show ?thesis by (simp add: titleCase_def charAt0_def slice1_def)
qed

lemma renderedFields_file_marker:
  assumes "CHR 0x22 \<notin> set name" and "\<forall>arg\<in>set args. CHR 0x22 \<notin> set arg"
    and "\<forall>s. CHR 0x22 \<notin> set s \<longrightarrow> CHR 0x22 \<notin> set (toUpperCase rt s)"
  shows \<open>sublist ''type="file"'' (renderedFields_of rt name (map parseField args)) \<longleftrightarrow>
           (\<exists>arg\<in>set args. ftype (parseField arg) = Some ''files''
                           \<or> ftype (parseField arg) = Some ''file'')\<close>
    and \<open>\<not> sublist '' enctype="multipart/form-data"'' (renderedFields_of rt name (map parseField args))\<close>
proof -
  have q: "CHR 0x22 \<notin> set (field (parseField arg))
           \<and> CHR 0x22 \<notin> set (titleCase rt (field (parseField arg)))
           \<and> CHR 0x22 \<notin> set (typeText (ftype (parseField arg)))" if "arg \<in> set args" for arg
  proof -
    have a: "CHR 0x22 \<notin> set arg" using that assms(2) by blast
    then have f: "CHR 0x22 \<notin> set (field (parseField arg))"
      using parseField_field_subset [of arg] by blast
    show ?thesis using f titleCase_no_quote [OF assms(3) f] typeText_no_quote [OF a] by simp
  qed
  have b: \<open>sublist ''type="file"'' (renderField rt (parseField arg) name) \<longleftrightarrow>
           ftype (parseField arg) = Some ''files'' \<or> ftype (parseField arg) = Some ''file''\<close>
    if "arg \<in> set args" for arg
    using sublist_file_renderField [of name "parseField arg" rt] q [OF that] assms(1) by blast
  have c: \<open>\<not> sublist '' enctype="multipart/form-data"'' (renderField rt (parseField arg) name)\<close>
    if "arg \<in> set args" for arg
    using no_enctype_renderField [of name "parseField arg" rt] q [OF that] assms(1) by blast
  show \<open>sublist ''type="file"'' (renderedFields_of rt name (map parseField args)) \<longleftrightarrow>
           (\<exists>arg\<in>set args. ftype (parseField arg) = Some ''files''
                           \<or> ftype (parseField arg) = Some ''file'')\<close>
    using b by (simp add: renderedFields_of_def sublist_join)
  show \<open>\<not> sublist '' enctype="multipart/form-data"'' (renderedFields_of rt name (map parseField args))\<close>
    using c by (simp add: renderedFields_of_def sublist_join)
qed

lemma form_pageSvelte_enctype:
  assumes "CHR 0x22 \<notin> set name" and "CHR 0x22 \<notin> set title"
    and "\<forall>arg\<in>set args. CHR 0x22 \<notin> set arg"
    and "\<forall>s. CHR 0x22 \<notin> set s \<longrightarrow> CHR 0x22 \<notin> set (toUpperCase rt s)"
  shows \<open>sublist '' enctype="multipart/form-data"'' (form_pageSvelte rt title name args) \<longleftrightarrow>
           (\<exists>arg\<in>set args. ftype (parseField arg) = Some ''files''
                           \<or> ftype (parseField arg) = Some ''file'')\<close>
proof -
  let ?rf = "renderedFields_of rt name (map parseField args)"
  have "sublist '' enctype=\"multipart/form-data\"'' (pageSvelte rt name (renderHeader ?rf) title ?rf)
        \<longleftrightarrow> sublist ''type=\"file\"'' ?rf"
    using assms(1,2) titleCase_no_quote [OF assms(4) assms(1)]
          renderedFields_file_marker(2) [OF assms(1,3,4)] no_enctype_renderHeader
    by (rule pageSvelte_enctype)
  then show ?thesis
    using renderedFields_file_marker(1) [OF assms(1,3,4)]
    by (simp add: form_pageSvelte_def Let_def)
qed

lemma asciiUpper_quote: "asciiUpper c = CHR 0x22 \<Longrightarrow> c = CHR 0x22"
  by (auto simp: asciiUpper_def split: option.splits if_splits)

lemma bare_toUpperCase_no_quote:
  "\<forall>s. CHR 0x22 \<notin> set s \<longrightarrow> CHR 0x22 \<notin> set (toUpperCase bare_runtime s)"
proof (intro allI impI)
  fix s :: string
  assume a: "CHR 0x22 \<notin> set s"
  show "CHR 0x22 \<notin> set (toUpperCase bare_runtime s)"
  proof
    assume "CHR 0x22 \<in> set (toUpperCase bare_runtime s)"
    then obtain x where x: "x \<in> set s" "asciiUpper x = CHR 0x22"
      by (auto simp: bare_runtime_def)
    from x(2) have "x = CHR 0x22" by (rule asciiUpper_quote)
    with x(1) a show False by simp
  qed
qed

subsection \<open>The multipart attribute\<close>

lemma parseField_avatar: "parseField ''avatar:file'' = \<lparr>field = ''avatar'', ftype = Some ''file''\<rparr>"
  using parseField_one_colon [of "''avatar''" "''file''"] by simp

lemma parseField_photos: "parseField ''photos:files'' = \<lparr>field = ''photos'', ftype = Some ''files''\<rparr>"
  using parseField_one_colon [of "''photos''" "''files''"] by simp

text \<open>
  Claim C3, as the code has it. \<^verbatim>\<open>renderFormType\<close> looks for the text \<^verbatim>\<open>type="file"\<close> in the
  rendered field blocks, and that text is rendered for a field of type \<^verbatim>\<open>files\<close> and also
  for a field of type \<^verbatim>\<open>file\<close>, whose tag the last branch of \<^verbatim>\<open>renderInput\<close> copies into
  the type attribute. So, when the form name, the title and the field arguments contain no
  double quote (and upper-casing adds none), the view document contains the attribute
  \<^verbatim>\<open>enctype="multipart/form-data"\<close> if and only if at least one field has the type
  \<^verbatim>\<open>files\<close> or the type \<^verbatim>\<open>file\<close>.
\<close>

theorem multipart_iff_file_field:
  assumes "CHR 0x22 \<notin> set name" and "CHR 0x22 \<notin> set title"
    and "\<forall>arg\<in>set args. CHR 0x22 \<notin> set arg"
    and "\<forall>s. CHR 0x22 \<notin> set s \<longrightarrow> CHR 0x22 \<notin> set (toUpperCase rt s)"
  shows \<open>sublist '' enctype="multipart/form-data"'' (form_pageSvelte rt title name args) \<longleftrightarrow>
           (\<exists>arg\<in>set args. ftype (parseField arg) = Some ''files''
                           \<or> ftype (parseField arg) = Some ''file'')\<close>
  using assms by (rule form_pageSvelte_enctype)

theorem multipart_iff_file_field_witness:
  \<open>CHR 0x22 \<notin> set ''gallery'' \<and> CHR 0x22 \<notin> set ''Gallery'' \<and>
   CHR 0x22 \<notin> set ''photos:files'' \<and>
   ftype (parseField ''photos:files'') = Some ''files'' \<and>
   sublist '' enctype="multipart/form-data"''
     (form_pageSvelte bare_runtime ''Gallery'' ''gallery'' [''photos:files''])\<close>
proof -
  have 1: "CHR 0x22 \<notin> set ''gallery''" and 2: "CHR 0x22 \<notin> set ''Gallery''"
    and 3: "\<forall>arg\<in>set [''photos:files'']. CHR 0x22 \<notin> set arg" by simp_all
  note 4 = bare_toUpperCase_no_quote
  show ?thesis
    using 1 2 3 4 multipart_iff_file_field [OF 1 2 3 4] by (simp add: parseField_photos)
qed

text \<open>A form whose only field has the type \<^verbatim>\<open>file\<close> gets the attribute; no field has type \<^verbatim>\<open>files\<close>.\<close>

theorem multipart_without_files_field:
  \<open>sublist '' enctype="multipart/form-data"''
     (form_pageSvelte bare_runtime ''Profile'' ''profile'' [''avatar:file'']) \<and>
   \<not> (\<exists>arg\<in>set [''avatar:file'']. ftype (parseField arg) = Some ''files'')\<close>
proof -
  have 1: "CHR 0x22 \<notin> set ''profile''" and 2: "CHR 0x22 \<notin> set ''Profile''"
    and 3: "\<forall>arg\<in>set [''avatar:file'']. CHR 0x22 \<notin> set arg" by simp_all
  show ?thesis
    using form_pageSvelte_enctype [OF 1 2 3 bare_toUpperCase_no_quote]
    by (simp add: parseField_avatar)
qed

subsection \<open>The imports of the header\<close>

lemma renderHeader_Input_line:
  \<open>sublist ''  import { Input } from "$ui/input";'' (renderHeader rf) \<longleftrightarrow> sublist ''Input'' rf\<close>
  by (simp add: renderHeader_cases sublist_Cons_right)

lemma renderHeader_Textarea_line:
  \<open>sublist ''  import { Textarea } from "$ui/textarea";'' (renderHeader rf) \<longleftrightarrow> sublist ''Textarea'' rf\<close>
  by (simp add: renderHeader_cases sublist_Cons_right)

lemma renderHeader_imports:
  \<open>(sublist ''  import { Input } from "$ui/input";''
       (renderHeader (renderedFields_of rt name (map parseField args))) \<longleftrightarrow>
     (\<exists>arg\<in>set args.
        ftype (parseField arg) \<noteq> Some ''textarea''
        \<or> sublist ''Input'' name
        \<or> sublist ''Input'' (field (parseField arg))
        \<or> sublist ''Input'' (titleCase rt (field (parseField arg))))) \<and>
   (sublist ''  import { Textarea } from "$ui/textarea";''
       (renderHeader (renderedFields_of rt name (map parseField args))) \<longleftrightarrow>
     (\<exists>arg\<in>set args.
        ftype (parseField arg) = Some ''textarea''
        \<or> sublist ''Textarea'' name
        \<or> sublist ''Textarea'' (field (parseField arg))
        \<or> sublist ''Textarea'' (titleCase rt (field (parseField arg)))
        \<or> (ftype (parseField arg) \<noteq> Some ''files''
            \<and> sublist ''Textarea'' (typeText (ftype (parseField arg))))))\<close>
  by (simp add: renderHeader_Input_line renderHeader_Textarea_line renderedFields_of_def
        sublist_join sublist_Input_renderField sublist_Textarea_renderField)

lemma parseField_input_textarea:
  "parseField ''input:textarea'' = \<lparr>field = ''input'', ftype = Some ''textarea''\<rparr>"
  using parseField_one_colon [of "''input''" "''textarea''"] by simp

lemma parseField_bio_textarea:
  "parseField ''bio:textarea'' = \<lparr>field = ''bio'', ftype = Some ''textarea''\<rparr>"
  using parseField_one_colon [of "''bio''" "''textarea''"] by simp

lemma parseField_email_email:
  "parseField ''email:email'' = \<lparr>field = ''email'', ftype = Some ''email''\<rparr>"
  using parseField_one_colon [of "''email''" "''email''"] by simp

lemma titleCase_bare_input: "titleCase bare_runtime ''input'' = ''Input''"
  by (simp add: titleCase_def charAt0_def slice1_def bare_runtime_def asciiUpper_def)

text \<open>
  Claim C4, as the code has it. \<^verbatim>\<open>renderHeader\<close> looks for the texts \<^verbatim>\<open>Input\<close> and
  \<^verbatim>\<open>Textarea\<close> in the rendered field blocks. The header has the import line of the
  \<^verbatim>\<open>Input\<close> widget if and only if some field has a type other than \<^verbatim>\<open>textarea\<close>, or the
  text \<^verbatim>\<open>Input\<close> occurs in the form name (there being a field), in a field name or in a
  label. It has the import line of the \<^verbatim>\<open>Textarea\<close> widget if and only if some field has
  the type \<^verbatim>\<open>textarea\<close>, or the text \<^verbatim>\<open>Textarea\<close> occurs in the form name, in a field name,
  in a label, or in the type tag that a single-line widget copies into its type attribute.
  Where neither text occurs in a name, a label or a tag, this is the rule of the widgets
  alone.
\<close>

theorem header_imports:
  \<open>(sublist ''  import { Input } from "$ui/input";''
       (renderHeader (renderedFields_of rt name (map parseField args))) \<longleftrightarrow>
     (\<exists>arg\<in>set args.
        ftype (parseField arg) \<noteq> Some ''textarea''
        \<or> sublist ''Input'' name
        \<or> sublist ''Input'' (field (parseField arg))
        \<or> sublist ''Input'' (titleCase rt (field (parseField arg))))) \<and>
   (sublist ''  import { Textarea } from "$ui/textarea";''
       (renderHeader (renderedFields_of rt name (map parseField args))) \<longleftrightarrow>
     (\<exists>arg\<in>set args.
        ftype (parseField arg) = Some ''textarea''
        \<or> sublist ''Textarea'' name
        \<or> sublist ''Textarea'' (field (parseField arg))
        \<or> sublist ''Textarea'' (titleCase rt (field (parseField arg)))
        \<or> (ftype (parseField arg) \<noteq> Some ''files''
            \<and> sublist ''Textarea'' (typeText (ftype (parseField arg))))))\<close>
  by (rule renderHeader_imports)

theorem header_imports_witness:
  \<open>ftype (parseField ''email:email'') \<noteq> Some ''textarea'' \<and>
   ftype (parseField ''bio:textarea'') = Some ''textarea'' \<and>
   sublist ''  import { Input } from "$ui/input";''
     (renderHeader (renderedFields_of bare_runtime ''signup''
        (map parseField [''email:email'', ''bio:textarea'']))) \<and>
   sublist ''  import { Textarea } from "$ui/textarea";''
     (renderHeader (renderedFields_of bare_runtime ''signup''
        (map parseField [''email:email'', ''bio:textarea''])))\<close>
  using header_imports [of bare_runtime "''signup''" "[''email:email'', ''bio:textarea'']"]
  by (simp add: parseField_email_email parseField_bio_textarea)

text \<open>
  A form whose only field is a text area named \<^verbatim>\<open>input\<close>: its label reads \<^verbatim>\<open>Input\<close>, and the
  header imports the \<^verbatim>\<open>Input\<close> widget, which no field renders.
\<close>

theorem Input_import_without_single_line_field:
  \<open>sublist ''  import { Input } from "$ui/input";''
     (renderHeader (renderedFields_of bare_runtime ''post'' (map parseField [''input:textarea'']))) \<and>
   \<not> (\<exists>arg\<in>set [''input:textarea'']. ftype (parseField arg) \<noteq> Some ''textarea'')\<close>
  using renderHeader_imports [of bare_runtime "''post''" "[''input:textarea'']"]
  by (simp add: parseField_input_textarea titleCase_bare_input)

subsection \<open>Field blocks and schema rules follow the argument list\<close>

text \<open>
  Each document is its template with the list of blocks, or of rules, put in at one place.
  The opening tag \<^verbatim>\<open><Form.Field \<close> occurs once in a field block and nowhere else in the
  view template, and the text \<^verbatim>\<open>: z.\<close> occurs once in a schema rule and nowhere else in the
  server template, so their occurrences count the blocks and the rules of a document.
\<close>

lemma pageSvelte_cut:
  "pageSvelte rt name h title rf =
     pageSvelte_head rt name h title (renderFormType rf) @ rf @ pageSvelte_tail name"
  by (simp add: pageSvelte_def pageSvelte_head_def pageSvelte_tail_def)

lemma pageServer_cut:
  "pageServer name sn rs flds = pageServer_head sn @ rs @ pageServer_tail name sn flds"
  by (simp add: pageServer_def pageServer_head_def pageServer_tail_def)

lemma pageSvelte_part0_cut:
  "pageSvelte_part0 rt name h rf =
     pageSvelte_head_part0 rt name h (renderFormType rf) @ rf @ pageSvelte_tail_part0 name"
  by (simp add: pageSvelte_part0_def pageSvelte_head_part0_def pageSvelte_tail_part0_def)

lemma pageServer_part0_cut:
  "pageServer_part0 name sn rs flds =
     pageServer_head_part0 sn @ rs @ pageServer_tail_part0 name sn flds"
  by (simp add: pageServer_part0_def pageServer_head_part0_def pageServer_tail_part0_def)

lemma occurrences_none: "q \<notin> set u \<Longrightarrow> occurrences (q # m) u = 0"
  by (induction u) auto

lemma occurrences_skip: "q \<notin> set u \<Longrightarrow> occurrences (q # m) (u @ ys) = occurrences (q # m) ys"
  by (induction u) auto

lemma prefix_before_sep:
  assumes "c \<notin> set m"
  shows "prefix m (u @ c # ys) \<longleftrightarrow> prefix m u"
proof
  assume "prefix m (u @ c # ys)"
  then have "prefix m u \<or> (\<exists>m'. m = u @ m' \<and> prefix m' (c # ys))"
    by (auto simp: prefix_append)
  then show "prefix m u"
  proof
    assume "\<exists>m'. m = u @ m' \<and> prefix m' (c # ys)"
    then obtain m' where m: "m = u @ m'" "prefix m' (c # ys)" by blast
    have "m' = []"
    proof (cases m')
      case (Cons a m'')
      with m(2) have "a = c" by simp
      with m(1) Cons assms show ?thesis by simp
    qed simp
    with m(1) show ?thesis by simp
  qed simp
next
  assume "prefix m u"
  then show "prefix m (u @ c # ys)" by (rule prefix_prefix)
qed

lemma occurrences_sep:
  assumes "m \<noteq> []" and "c \<notin> set m"
  shows "occurrences m (u @ c # ys) = occurrences m u + occurrences m ys"
proof (induction u)
  case Nil
  have "\<not> prefix m (c # ys)" using assms by (cases m) auto
  then show ?case using assms(1) by simp
next
  case (Cons x u)
  have "prefix m (x # u @ c # ys) \<longleftrightarrow> prefix m (x # u)"
    using prefix_before_sep [OF assms(2), of "x # u" ys] by simp
  then show ?case using Cons by simp
qed

lemma occurrences_join:
  assumes "m \<noteq> []" and "CHR ''\<newline>'' \<notin> set m"
  shows "occurrences m (join ''\<newline>\<newline>'' bs) = sum_list (map (occurrences m) bs)"
    and "occurrences m (join ''\<newline>'' bs) = sum_list (map (occurrences m) bs)"
proof -
  have n: "occurrences m (CHR ''\<newline>'' # ys) = occurrences m ys" for ys
    using occurrences_sep [OF assms, of "[]" ys] assms(1) by simp
  show "occurrences m (join ''\<newline>\<newline>'' bs) = sum_list (map (occurrences m) bs)"
  proof (induction "''\<newline>\<newline>''" bs rule: join.induct)
    case 1
    then show ?case using assms(1) by simp
  next
    case (2 x)
    then show ?case by simp
  next
    case (3 x y ys)
    then show ?case using occurrences_sep [OF assms] n by simp
  qed
  show "occurrences m (join ''\<newline>'' bs) = sum_list (map (occurrences m) bs)"
  proof (induction "''\<newline>''" bs rule: join.induct)
    case 1
    then show ?case using assms(1) by simp
  next
    case (2 x)
    then show ?case by simp
  next
    case (3 x y ys)
    then show ?case using occurrences_sep [OF assms] by simp
  qed
qed

lemma occurrences_renderField:
  assumes "CHR ''<'' \<notin> set name" and "CHR ''<'' \<notin> set (field f)"
    and "CHR ''<'' \<notin> set (titleCase rt (field f))" and "CHR ''<'' \<notin> set (typeText (ftype f))"
  shows "occurrences ''<Form.Field '' (renderField rt f name) = 1"
  using assms
  by (simp add: renderField_def renderInput_def occurrences_skip occurrences_none)

lemma occurrences_renderHeader: "occurrences ''<Form.Field '' (renderHeader rf) = 0"
  by (simp add: renderHeader_cases)

lemma occurrences_pageSvelte:
  assumes "CHR ''<'' \<notin> set name" and "CHR ''<'' \<notin> set title"
    and "CHR ''<'' \<notin> set (titleCase rt name)"
    and "occurrences ''<Form.Field '' h = 0"
  shows "occurrences ''<Form.Field '' (pageSvelte rt name h title rf) = occurrences ''<Form.Field '' rf"
  using assms
  by (simp add: pageSvelte_def renderFormType_def occurrences_skip occurrences_sep occurrences_none)

lemma occurrences_pageSvelte_part0:
  assumes "CHR ''<'' \<notin> set name"
    and "CHR ''<'' \<notin> set (toUpperCase rt (charAt0 name))" and "CHR ''<'' \<notin> set (slice1 name)"
    and "occurrences ''<Form.Field '' h = 0"
  shows "occurrences ''<Form.Field '' (pageSvelte_part0 rt name h rf) = occurrences ''<Form.Field '' rf"
  using assms
  by (simp add: pageSvelte_part0_def renderFormType_def occurrences_skip occurrences_sep occurrences_none)

lemma occurrences_renderField_part0:
  assumes "CHR ''<'' \<notin> set name" and "CHR ''<'' \<notin> set (field f)"
    and "CHR ''<'' \<notin> set (toUpperCase rt (charAt0 (field f)))"
    and "CHR ''<'' \<notin> set (slice1 (field f))"
  shows "occurrences ''<Form.Field '' (renderField_part0 rt f name) = 1"
  using assms
  by (simp add: renderField_part0_def renderInput_part0_def occurrences_skip occurrences_none)

lemma occurrences_renderSchemaField:
  assumes "CHR '':'' \<notin> set (field f)"
  shows "occurrences '': z.'' (renderSchemaField f) = 1"
    and "occurrences '': z.'' (renderSchemaField_part0 f) = 1"
  using assms
  by (simp_all add: renderSchemaField_def renderSchemaField_part0_def occurrences_skip occurrences_none)

lemma not_in_join:
  "q \<notin> set sep \<Longrightarrow> (\<forall>x\<in>set xs. q \<notin> set x) \<Longrightarrow> q \<notin> set (join sep xs)"
  by (induction sep xs rule: join.induct) auto

lemma prefix_past_sep_dot:
  "CHR ''.'' \<in> set w \<Longrightarrow> c \<notin> set w \<Longrightarrow> CHR ''.'' \<notin> set u \<Longrightarrow> prefix w (u @ c # ys) = False"
  using prefix_past_sep [of "CHR ''.''" w c u ys] by simp

lemma occurrences_pageServer:
  assumes "CHR '':'' \<notin> set name" and "\<forall>f\<in>set flds. CHR '':'' \<notin> set (field f)"
  shows "occurrences '': z.'' (pageServer name (name @ ''Schema'') rs flds) = occurrences '': z.'' rs"
proof -
  have j: "CHR '':'' \<notin> set (join '', '' (map field flds))"
    by (rule not_in_join) (use assms(2) in auto)
  show ?thesis
    using assms(1) j
    by (simp add: pageServer_def occurrences_skip occurrences_sep occurrences_none)
qed

lemma occurrences_pageServer_part0:
  assumes "CHR '':'' \<notin> set name" and "CHR ''.'' \<notin> set name"
    and "\<forall>f\<in>set flds. CHR '':'' \<notin> set (field f)"
  shows "occurrences '': z.'' (pageServer_part0 name (name @ ''Schema'') rs flds) = occurrences '': z.'' rs"
proof -
  have j: "CHR '':'' \<notin> set (join '', '' (map field flds))"
    by (rule not_in_join) (use assms(3) in auto)
  show ?thesis
    using assms(1,2) j
    by (simp add: pageServer_part0_def occurrences_skip occurrences_sep occurrences_none
          prefix_past_sep_dot)
qed

lemma field_no_colon: "CHR '':'' \<notin> set (field (parseField arg))"
  by (subst parseField_eq) (auto dest: set_takeWhileD)

lemma typeText_keeps_out:
  "q \<notin> set arg \<Longrightarrow> q \<notin> set ''undefined'' \<Longrightarrow> q \<notin> set (typeText (ftype (parseField arg)))"
  using parseField_ftype_subset [of arg]
  by (cases "ftype (parseField arg)") (auto simp: typeText_def)

lemma titleCase_parts_keep_out:
  assumes "\<forall>s. q \<notin> set s \<longrightarrow> q \<notin> set (toUpperCase rt s)" and "q \<notin> set s"
  shows "q \<notin> set (toUpperCase rt (charAt0 s))" and "q \<notin> set (slice1 s)"
    and "q \<notin> set (titleCase rt s)"
proof -
  have "q \<notin> set (take 1 s)" using assms(2) by (auto dest: in_set_takeD)
  then show 1: "q \<notin> set (toUpperCase rt (charAt0 s))" using assms(1) by (simp add: charAt0_def)
  show 2: "q \<notin> set (slice1 s)" using assms(2) by (auto simp: slice1_def dest: in_set_dropD)
  show "q \<notin> set (titleCase rt s)" using 1 2 by (simp add: titleCase_def)
qed

lemma sum_list_ones: "(\<forall>x\<in>set xs. f x = (1::nat)) \<Longrightarrow> sum_list (map f xs) = length xs"
  by (induction xs) auto

lemma form_pageSvelte_count:
  assumes "CHR ''<'' \<notin> set name" and "CHR ''<'' \<notin> set title"
    and "\<forall>arg\<in>set args. CHR ''<'' \<notin> set arg"
    and "\<forall>s. CHR ''<'' \<notin> set s \<longrightarrow> CHR ''<'' \<notin> set (toUpperCase rt s)"
  shows "occurrences ''<Form.Field '' (form_pageSvelte rt title name args) = length args"
    and "occurrences ''<Form.Field '' (form_pageSvelte_part0 rt name args) = length args"
proof -
  have f: "CHR ''<'' \<notin> set (field (parseField arg))" if "arg \<in> set args" for arg
    using that assms(3) parseField_field_subset [of arg] by blast
  have t: "CHR ''<'' \<notin> set (typeText (ftype (parseField arg)))" if "arg \<in> set args" for arg
    using that assms(3) by (intro typeText_keeps_out) auto
  have b: "occurrences ''<Form.Field '' (renderField rt (parseField arg) name) = 1"
    if "arg \<in> set args" for arg
    using assms(1) f [OF that] titleCase_parts_keep_out(3) [OF assms(4) f [OF that]] t [OF that]
    by (rule occurrences_renderField)
  have b0: "occurrences ''<Form.Field '' (renderField_part0 rt (parseField arg) name) = 1"
    if "arg \<in> set args" for arg
    using assms(1) f [OF that] titleCase_parts_keep_out(1,2) [OF assms(4) f [OF that]]
    by (rule occurrences_renderField_part0)
  have "occurrences ''<Form.Field '' (renderedFields_of rt name (map parseField args)) = length args"
    using b by (simp add: renderedFields_of_def occurrences_join o_def sum_list_ones)
  then show "occurrences ''<Form.Field '' (form_pageSvelte rt title name args) = length args"
    using occurrences_pageSvelte [OF assms(1,2) titleCase_parts_keep_out(3) [OF assms(4,1)]
            occurrences_renderHeader]
    by (simp add: form_pageSvelte_def Let_def)
  have "occurrences ''<Form.Field '' (renderedFields_of_part0 rt name (map parseField args)) = length args"
    using b0 by (simp add: renderedFields_of_part0_def occurrences_join o_def sum_list_ones)
  then show "occurrences ''<Form.Field '' (form_pageSvelte_part0 rt name args) = length args"
    using occurrences_pageSvelte_part0 [OF assms(1) titleCase_parts_keep_out(1,2) [OF assms(4,1)]
            occurrences_renderHeader]
    by (simp add: form_pageSvelte_part0_def Let_def)
qed

lemma form_pageServer_count:
  assumes "CHR '':'' \<notin> set name"
  shows "occurrences '': z.'' (form_pageServer name args) = length args"
    and "CHR ''.'' \<notin> set name \<Longrightarrow>
         occurrences '': z.'' (form_pageServer_part0 name args) = length args"
proof -
  have c: "\<forall>f\<in>set (map parseField args). CHR '':'' \<notin> set (field f)"
    using field_no_colon by auto
  have r: "occurrences '': z.'' (renderedSchemaFields_of (map parseField args)) = length args"
    using occurrences_renderSchemaField(1) [OF field_no_colon]
    by (simp add: renderedSchemaFields_of_eq occurrences_join o_def sum_list_ones)
  have r0: "occurrences '': z.'' (renderedSchemaFields_of_part0 (map parseField args)) = length args"
    using occurrences_renderSchemaField(2) [OF field_no_colon]
    by (simp add: renderedSchemaFields_of_part0_eq occurrences_join o_def sum_list_ones)
  show "occurrences '': z.'' (form_pageServer name args) = length args"
    using occurrences_pageServer [OF assms c] r by (simp add: form_pageServer_def Let_def)
  show "occurrences '': z.'' (form_pageServer_part0 name args) = length args"
    if "CHR ''.'' \<notin> set name"
    using occurrences_pageServer_part0 [OF assms that c] r0
    by (simp add: form_pageServer_part0_def Let_def)
qed

lemma block_starts:
  \<open>prefix (''  <Form.Field form={'' @ name @ ''} name="'' @ field f @ ''">'') (renderField rt f name)\<close>
  \<open>prefix (''  <Form.Field form={'' @ name @ ''} field="'' @ field f @ ''">'')
     (renderField_part0 rt f name)\<close>
  by (simp_all add: renderField_def renderField_part0_def)

lemma rule_starts:
  "prefix (''  '' @ field f @ '': z.'') (renderSchemaField f)"
  "prefix (''  '' @ field f @ '': z.'') (renderSchemaField_part0 f)"
  by (simp_all add: renderSchemaField_def renderSchemaField_part0_def)

lemma form_documents_cut:
  "form_pageSvelte rt title name args =
     pageSvelte_head rt name (renderHeader (renderedFields_of rt name (map parseField args))) title
       (renderFormType (renderedFields_of rt name (map parseField args)))
     @ join ''\<newline>\<newline>'' (map (\<lambda>arg. renderField rt (parseField arg) name) args)
     @ pageSvelte_tail name"
  "form_pageServer name args =
     pageServer_head (name @ ''Schema'')
     @ join ''\<newline>'' (map (\<lambda>arg. renderSchemaField (parseField arg)) args)
     @ pageServer_tail name (name @ ''Schema'') (map parseField args)"
  "form_pageSvelte_part0 rt name args =
     pageSvelte_head_part0 rt name
       (renderHeader (renderedFields_of_part0 rt name (map parseField args)))
       (renderFormType (renderedFields_of_part0 rt name (map parseField args)))
     @ join ''\<newline>\<newline>'' (map (\<lambda>arg. renderField_part0 rt (parseField arg) name) args)
     @ pageSvelte_tail_part0 name"
  "form_pageServer_part0 name args =
     pageServer_head_part0 (name @ ''Schema'')
     @ join ''\<newline>'' (map (\<lambda>arg. renderSchemaField_part0 (parseField arg)) args)
     @ pageServer_tail_part0 name (name @ ''Schema'') (map parseField args)"
  by (simp_all add: form_pageSvelte_def form_pageServer_def form_pageSvelte_part0_def
        form_pageServer_part0_def Let_def pageSvelte_cut pageServer_cut pageSvelte_part0_cut
        pageServer_part0_cut renderedFields_of_def renderedFields_of_part0_def
        renderedSchemaFields_of_eq renderedSchemaFields_of_part0_eq o_def)

lemma asciiUpper_lt: "asciiUpper c = CHR ''<'' \<Longrightarrow> c = CHR ''<''"
  by (auto simp: asciiUpper_def split: option.splits if_splits)

lemma bare_toUpperCase_no_lt:
  "\<forall>s. CHR ''<'' \<notin> set s \<longrightarrow> CHR ''<'' \<notin> set (toUpperCase bare_runtime s)"
proof (intro allI impI)
  fix s :: string
  assume a: "CHR ''<'' \<notin> set s"
  show "CHR ''<'' \<notin> set (toUpperCase bare_runtime s)"
  proof
    assume "CHR ''<'' \<in> set (toUpperCase bare_runtime s)"
    then obtain x where x: "x \<in> set s" "asciiUpper x = CHR ''<''"
      by (auto simp: bare_runtime_def)
    from x(2) have "x = CHR ''<''" by (rule asciiUpper_lt)
    with x(1) a show False by simp
  qed
qed

lemma parseField_password_password:
  "parseField ''password:password'' = \<lparr>field = ''password'', ftype = Some ''password''\<rparr>"
  using parseField_one_colon [of "''password''" "''password''"] by simp

text \<open>
  Claim C2. In both versions of the renderer the view document is the text up to the form
  tag, then the field blocks of the arguments, one for each argument and in the order of
  the arguments, joined by empty lines, then the text from the submit button on; the
  server document is the text up to the opening of the schema object, then the schema
  rules of the arguments, one a line and in the same order, then the rest. Block \<open>i\<close>
  opens with the tag that carries the field name of argument \<open>i\<close>, and rule \<open>i\<close>
  starts with that field name. The view document holds as many opening tags
  \<^verbatim>\<open><Form.Field \<close> as there are arguments (where no name, title or argument contains
  \<^verbatim>\<open><\<close>), and the server document as many occurrences of \<^verbatim>\<open>: z.\<close> (where the form name
  has no colon and, for the older version, no dot): the numbers of blocks and of rules in
  the documents are the length of the argument list.
\<close>

theorem form_blocks_in_order:
  \<open>form_pageSvelte rt title name args =
     pageSvelte_head rt name (renderHeader (renderedFields_of rt name (map parseField args))) title
       (renderFormType (renderedFields_of rt name (map parseField args)))
     @ join ''\<newline>\<newline>'' (map (\<lambda>arg. renderField rt (parseField arg) name) args)
     @ pageSvelte_tail name \<and>
   form_pageServer name args =
     pageServer_head (name @ ''Schema'')
     @ join ''\<newline>'' (map (\<lambda>arg. renderSchemaField (parseField arg)) args)
     @ pageServer_tail name (name @ ''Schema'') (map parseField args) \<and>
   form_pageSvelte_part0 rt name args =
     pageSvelte_head_part0 rt name
       (renderHeader (renderedFields_of_part0 rt name (map parseField args)))
       (renderFormType (renderedFields_of_part0 rt name (map parseField args)))
     @ join ''\<newline>\<newline>'' (map (\<lambda>arg. renderField_part0 rt (parseField arg) name) args)
     @ pageSvelte_tail_part0 name \<and>
   form_pageServer_part0 name args =
     pageServer_head_part0 (name @ ''Schema'')
     @ join ''\<newline>'' (map (\<lambda>arg. renderSchemaField_part0 (parseField arg)) args)
     @ pageServer_tail_part0 name (name @ ''Schema'') (map parseField args) \<and>
   (i < length args \<longrightarrow>
      prefix (''  <Form.Field form={'' @ name @ ''} name="'' @ field (parseField (args ! i)) @ ''">'')
        (map (\<lambda>arg. renderField rt (parseField arg) name) args ! i) \<and>
      prefix (''  '' @ field (parseField (args ! i)) @ '': z.'')
        (map (\<lambda>arg. renderSchemaField (parseField arg)) args ! i) \<and>
      prefix (''  <Form.Field form={'' @ name @ ''} field="'' @ field (parseField (args ! i)) @ ''">'')
        (map (\<lambda>arg. renderField_part0 rt (parseField arg) name) args ! i) \<and>
      prefix (''  '' @ field (parseField (args ! i)) @ '': z.'')
        (map (\<lambda>arg. renderSchemaField_part0 (parseField arg)) args ! i)) \<and>
   (CHR ''<'' \<notin> set name \<and> CHR ''<'' \<notin> set title \<and> (\<forall>arg\<in>set args. CHR ''<'' \<notin> set arg) \<and>
    (\<forall>s. CHR ''<'' \<notin> set s \<longrightarrow> CHR ''<'' \<notin> set (toUpperCase rt s)) \<longrightarrow>
      occurrences ''<Form.Field '' (form_pageSvelte rt title name args) = length args \<and>
      occurrences ''<Form.Field '' (form_pageSvelte_part0 rt name args) = length args) \<and>
   (CHR '':'' \<notin> set name \<longrightarrow>
      occurrences '': z.'' (form_pageServer name args) = length args) \<and>
   (CHR '':'' \<notin> set name \<and> CHR ''.'' \<notin> set name \<longrightarrow>
      occurrences '': z.'' (form_pageServer_part0 name args) = length args)\<close>
proof -
  note cut = form_documents_cut
  have shape: \<open>i < length args \<longrightarrow>
      prefix (''  <Form.Field form={'' @ name @ ''} name="'' @ field (parseField (args ! i)) @ ''">'')
        (map (\<lambda>arg. renderField rt (parseField arg) name) args ! i) \<and>
      prefix (''  '' @ field (parseField (args ! i)) @ '': z.'')
        (map (\<lambda>arg. renderSchemaField (parseField arg)) args ! i) \<and>
      prefix (''  <Form.Field form={'' @ name @ ''} field="'' @ field (parseField (args ! i)) @ ''">'')
        (map (\<lambda>arg. renderField_part0 rt (parseField arg) name) args ! i) \<and>
      prefix (''  '' @ field (parseField (args ! i)) @ '': z.'')
        (map (\<lambda>arg. renderSchemaField_part0 (parseField arg)) args ! i)\<close>
    using block_starts [of name "parseField (args ! i)" rt] rule_starts [of "parseField (args ! i)"]
    by (simp del: append.simps)
  have view: "CHR ''<'' \<notin> set name \<and> CHR ''<'' \<notin> set title \<and> (\<forall>arg\<in>set args. CHR ''<'' \<notin> set arg) \<and>
    (\<forall>s. CHR ''<'' \<notin> set s \<longrightarrow> CHR ''<'' \<notin> set (toUpperCase rt s)) \<longrightarrow>
      occurrences ''<Form.Field '' (form_pageSvelte rt title name args) = length args \<and>
      occurrences ''<Form.Field '' (form_pageSvelte_part0 rt name args) = length args"
    using form_pageSvelte_count [of name title args rt] by blast
  have server: "CHR '':'' \<notin> set name \<longrightarrow>
      occurrences '': z.'' (form_pageServer name args) = length args"
    using form_pageServer_count(1) [of name args] by blast
  have server0: "CHR '':'' \<notin> set name \<and> CHR ''.'' \<notin> set name \<longrightarrow>
      occurrences '': z.'' (form_pageServer_part0 name args) = length args"
    using form_pageServer_count(2) [of name args] by blast
  show ?thesis
    by (intro conjI) (rule cut shape view server server0)+
qed

theorem form_blocks_in_order_witness:
  \<open>(1::nat) < length [''email:email'', ''password:password''] \<and>
   CHR ''<'' \<notin> set ''signup'' \<and> CHR ''<'' \<notin> set ''Signup'' \<and>
   CHR ''<'' \<notin> set ''email:email'' \<and> CHR ''<'' \<notin> set ''password:password'' \<and>
   CHR '':'' \<notin> set ''signup'' \<and> CHR ''.'' \<notin> set ''signup'' \<and>
   occurrences ''<Form.Field ''
     (form_pageSvelte bare_runtime ''Signup'' ''signup'' [''email:email'', ''password:password'']) = 2 \<and>
   occurrences '': z.'' (form_pageServer ''signup'' [''email:email'', ''password:password'']) = 2 \<and>
   occurrences ''<Form.Field ''
     (form_pageSvelte_part0 bare_runtime ''signup'' [''email:email'', ''password:password'']) = 2 \<and>
   occurrences '': z.'' (form_pageServer_part0 ''signup'' [''email:email'', ''password:password'']) = 2 \<and>
   prefix ''  <Form.Field form={signup} name="password">''
     (map (\<lambda>arg. renderField bare_runtime (parseField arg) ''signup'')
        [''email:email'', ''password:password''] ! 1) \<and>
   prefix ''  password: z.''
     (map (\<lambda>arg. renderSchemaField (parseField arg)) [''email:email'', ''password:password''] ! 1)\<close>
proof -
  let ?args = "[''email:email'', ''password:password'']"
  note T = form_blocks_in_order [of bare_runtime "''Signup''" "''signup''" ?args 1]
  have i: "(1::nat) < length ?args" by simp
  have h: "CHR ''<'' \<notin> set ''signup''" "CHR ''<'' \<notin> set ''Signup''"
    "CHR ''<'' \<notin> set ''email:email''" "CHR ''<'' \<notin> set ''password:password''"
    "CHR '':'' \<notin> set ''signup''" "CHR ''.'' \<notin> set ''signup''" by simp_all
  have ha: "\<forall>arg\<in>set ?args. CHR ''<'' \<notin> set arg" by simp
  have counts:
    "occurrences ''<Form.Field '' (form_pageSvelte bare_runtime ''Signup'' ''signup'' ?args) = length ?args"
    "occurrences ''<Form.Field '' (form_pageSvelte_part0 bare_runtime ''signup'' ?args) = length ?args"
    "occurrences '': z.'' (form_pageServer ''signup'' ?args) = length ?args"
    "occurrences '': z.'' (form_pageServer_part0 ''signup'' ?args) = length ?args"
    using T h ha bare_toUpperCase_no_lt by blast+
  have shape: \<open>prefix (''  <Form.Field form={'' @ ''signup'' @ ''} name="''
                    @ field (parseField (?args ! 1)) @ ''">'')
        (map (\<lambda>arg. renderField bare_runtime (parseField arg) ''signup'') ?args ! 1)\<close>
      \<open>prefix (''  '' @ field (parseField (?args ! 1)) @ '': z.'')
        (map (\<lambda>arg. renderSchemaField (parseField arg)) ?args ! 1)\<close>
    using T i by blast+
  have p: "field (parseField (?args ! 1)) = ''password''"
    by (simp add: parseField_password_password)
  show ?thesis
    using i h counts shape unfolding p by simp
qed

end
